theory Spec2Isabelle
  imports Main "HOL-Library.Sublist"
begin

section \<open>Type model (types.cpp)\<close>

text \<open>
  The kind of a value, \<^verbatim>\<open>enum class Type\<close>. The enumerators are the ones
  \<^verbatim>\<open>typestr\<close> switches over.
\<close>

datatype Type =
    Type_none | Type_integer | Type_quantize | Type_count | Type_stack
  | Type_ustack | Type_string | Type_sym | Type_usym | Type_cast

text \<open>
  \<^verbatim>\<open>SizedType\<close>: a kind, a byte size (\<^verbatim>\<open>size_t\<close>) and the name of the struct
  a cast refers to. The two-argument constructor leaves the name empty.
\<close>

record SizedType =
  type' :: Type
  size' :: nat
  cast_type :: string

definition SizedType2 :: "Type \<Rightarrow> nat \<Rightarrow> SizedType" where
  "SizedType2 t n = \<lparr>type' = t, size' = n, cast_type = []\<rparr>"

definition SizedType3 :: "Type \<Rightarrow> nat \<Rightarrow> string \<Rightarrow> SizedType" where
  "SizedType3 t n c = \<lparr>type' = t, size' = n, cast_type = c\<rparr>"

text \<open>\<^verbatim>\<open>SizedType::operator==\<close> compares kind and size, not the struct name.\<close>

definition SizedType_eq :: "SizedType \<Rightarrow> SizedType \<Rightarrow> bool" where
  "SizedType_eq a b = (type' a = type' b \<and> size' a = size' b)"

fun typestr :: "Type \<Rightarrow> string" where
  "typestr Type_none = ''none''"
| "typestr Type_integer = ''integer''"
| "typestr Type_quantize = ''quantize''"
| "typestr Type_count = ''count''"
| "typestr Type_stack = ''stack''"
| "typestr Type_ustack = ''ustack''"
| "typestr Type_string = ''string''"
| "typestr Type_sym = ''sym''"
| "typestr Type_usym = ''usym''"
| "typestr Type_cast = ''cast''"

datatype ProbeType =
    ProbeType_kprobe | ProbeType_kretprobe | ProbeType_uprobe
  | ProbeType_uretprobe | ProbeType_tracepoint | ProbeType_profile

text \<open>
  What stops the process instead of returning: \<^verbatim>\<open>abort()\<close>, the exception of
  \<^verbatim>\<open>vector::at\<close> out of range, and the reads whose behaviour C++ leaves
  undefined (\<^verbatim>\<open>back()\<close> of an empty string, a null pointer, a
  \<^verbatim>\<open>static_cast\<close> to a node kind the node does not have).
\<close>

datatype fault = Abort | OutOfRange | EmptyBack | NullPointer | BadStaticCast

definition probetype :: "string \<Rightarrow> fault + ProbeType" where
  "probetype t =
    (if t = ''kprobe'' then Inr ProbeType_kprobe
     else if t = ''kretprobe'' then Inr ProbeType_kretprobe
     else if t = ''uprobe'' then Inr ProbeType_uprobe
     else if t = ''uretprobe'' then Inr ProbeType_uretprobe
     else if t = ''BEGIN'' then Inr ProbeType_uprobe
     else if t = ''END'' then Inr ProbeType_uprobe
     else if t = ''tracepoint'' then Inr ProbeType_tracepoint
     else if t = ''profile'' then Inr ProbeType_profile
     else Inl Abort)"

section \<open>Abstract syntax (the nodes the analyser visits)\<close>

text \<open>
  Modelled from the spec: \<^verbatim>\<open>parser.tab.hh\<close>, which declares the operator tokens, is
  generated and absent. The analyser tells apart equality, inequality and the star; every
  other token is \<open>OtherToken\<close>.
\<close>

datatype token = EQ | NE | MUL | OtherToken nat

text \<open>
  Modelled from the spec: \<^verbatim>\<open>ast.h\<close>, which declares the nodes, is absent. The node
  kinds are the ones the analyser has a \<^verbatim>\<open>visit\<close> for, with the fields it reads.
  Every expression node carries its mutable inferred type as its last argument.
  A call also carries whether \<^verbatim>\<open>call.map\<close> and \<^verbatim>\<open>call.var\<close> are non-null
  (the analyser only tests the pointers). The argument list of a call or of a map
  is a nullable pointer to a vector.
\<close>

datatype Expression =
    Integer int SizedType
  | String string SizedType
  | Builtin string SizedType
  | Call string "Expression list option" bool bool SizedType
  | Map string "Expression list option" SizedType
  | Variable string SizedType
  | Binop Expression token Expression SizedType
  | Unop token Expression SizedType
  | FieldAccess Expression string SizedType
  | Cast string Expression SizedType

fun expr_type :: "Expression \<Rightarrow> SizedType" where
  "expr_type (Integer n t) = t"
| "expr_type (String s t) = t"
| "expr_type (Builtin i t) = t"
| "expr_type (Call f a m v t) = t"
| "expr_type (Map i a t) = t"
| "expr_type (Variable i t) = t"
| "expr_type (Binop l op r t) = t"
| "expr_type (Unop op e t) = t"
| "expr_type (FieldAccess e f t) = t"
| "expr_type (Cast c e t) = t"

text \<open>
  Modelled from the spec: the flags \<^verbatim>\<open>is_literal\<close> and \<^verbatim>\<open>is_map\<close> of an
  expression are set in \<^verbatim>\<open>ast.h\<close>, which is absent. They are fixed by the node kind:
  the two literal kinds are literals, a map access is a map.
\<close>

fun is_literal :: "Expression \<Rightarrow> bool" where
  "is_literal (Integer n t) = True"
| "is_literal (String s t) = True"
| "is_literal e = False"

fun is_map :: "Expression \<Rightarrow> bool" where
  "is_map (Map i a t) = True"
| "is_map e = False"

text \<open>
  The statements. An assignment holds its target node inline: the identifier,
  argument list and type of the \<^verbatim>\<open>Map\<close> node, or the identifier and type of the
  \<^verbatim>\<open>Variable\<close> node.
\<close>

datatype Statement =
    ExprStatement Expression
  | AssignMapStatement string "Expression list option" SizedType Expression
  | AssignVarStatement string SizedType Expression

record AttachPoint =
  provider :: string
  target :: string
  func :: string
  freq :: int

datatype Probe = Probe (attach_points: "AttachPoint list") (pred: "Expression option")
  (stmts: "Statement list")

datatype Program = Program (includes': "string list") (probes: "Probe list")

section \<open>The analyser's state and its collaborators\<close>

type_synonym MapKey = "(Type \<times> nat) list"

text \<open>
  Modelled from the spec: \<^verbatim>\<open>struct.h\<close> is absent. A struct of the registry has a
  total size and a type for each field name.
\<close>

record Struct =
  struct_size :: nat
  struct_fields :: "string \<rightharpoonup> SizedType"

text \<open>
  What the analyser reads and never writes: constants, the architecture service, the
  format verifier and the printers that live in files outside \<^verbatim>\<open>src/\<close>.
\<close>

record env =
  STRING_SIZE :: nat
  num_passes :: int
  max_arg :: int
  arch_name :: string
  arch_offset :: "string \<Rightarrow> int"
  verify_format_string :: "string \<Rightarrow> SizedType list \<Rightarrow> string"
  argument_type_list :: "MapKey \<Rightarrow> string"
  opstr_binop :: "token \<Rightarrow> string"
  opstr_unop :: "token \<Rightarrow> string"
  sizeof_uintptr :: nat

text \<open>
  The members of \<^verbatim>\<open>SemanticAnalyser\<close> (the trailing underscore of the C++ names
  dropped), with the parts of \<^verbatim>\<open>bpftrace_\<close> it touches: the struct registry
  (\<^verbatim>\<open>operator[]\<close> inserts into it), the recorded printf calls and the probes handed
  to \<^verbatim>\<open>add_probe\<close>. \<open>probe\<close> is the pointer to the probe being visited; only its
  attach points are read through it.
\<close>

record SemanticAnalyser =
  pass :: int
  err :: string
  out :: string
  map_key :: "string \<rightharpoonup> MapKey"
  map_val :: "string \<rightharpoonup> SizedType"
  variable_val :: "string \<rightharpoonup> SizedType"
  needs_stackid_map :: bool
  has_begin_probe :: bool
  has_end_probe :: bool
  probe :: "AttachPoint list option"
  structs :: "string \<rightharpoonup> Struct"
  printf_args :: "(string \<times> SizedType list) list"
  added_probes :: "Probe list"

definition is_final_pass :: "env \<Rightarrow> SemanticAnalyser \<Rightarrow> bool" where
  "is_final_pass ev st = (pass st = num_passes ev)"

text \<open>Appending to the error stream; \<^verbatim>\<open>std::endl\<close> writes a newline.\<close>

definition endl :: string where
  "endl = [CHR 0x0A]"

definition put_err :: "string \<Rightarrow> SemanticAnalyser \<Rightarrow> SemanticAnalyser" where
  "put_err s st = st\<lparr>err := err st @ s\<rparr>"

text \<open>Decimal output of a number, as \<^verbatim>\<open>operator<<\<close> prints it.\<close>

fun show_nat :: "nat \<Rightarrow> string" where
  "show_nat n =
    (if n < 10 then [''0123456789'' ! n]
     else show_nat (n div 10) @ [''0123456789'' ! (n mod 10)])"

declare show_nat.simps [simp del]

text \<open>The single quote, the tab and the star, which the messages and names contain.\<close>

definition sq :: string where
  "sq = [CHR 0x27]"

definition tab :: string where
  "tab = [CHR 0x09]"

definition star :: char where
  "star = CHR 0x2A"

text \<open>
  Modelled from the spec: \<^verbatim>\<open>types.h\<close>, which declares \<^verbatim>\<open>SizedType()\<close>, is absent.
  The type a node and a fresh map entry start with has the kind none, which stands for
  what is not determined.
\<close>

definition SizedType0 :: SizedType where
  "SizedType0 = SizedType2 Type_none 0"

section \<open>The rules of the node kinds (semantic_analyser.cpp)\<close>

definition visit_Integer :: "SizedType" where
  "visit_Integer = SizedType2 Type_integer 8"

text \<open>
  \<^verbatim>\<open>str.size() > STRING_SIZE-1\<close> compares a \<^verbatim>\<open>size_t\<close> with an \<^verbatim>\<open>int\<close>,
  which is converted to 64 unsigned bits first.
\<close>

definition visit_String :: "env \<Rightarrow> SemanticAnalyser \<Rightarrow> string \<Rightarrow> SemanticAnalyser \<times> SizedType" where
  "visit_String ev st str =
    ((if int (length str) > (int (STRING_SIZE ev) - 1) mod 2 ^ 64
      then put_err (''String is too long (over '' @ show_nat (STRING_SIZE ev) @ '' bytes): ''
                    @ str @ endl) st
      else st),
     SizedType2 Type_string (STRING_SIZE ev))"

text \<open>The loop of the \<^verbatim>\<open>func\<close> builtin over the attach points of the probe.\<close>

fun func_attach_points ::
  "SemanticAnalyser \<Rightarrow> SizedType \<Rightarrow> AttachPoint list \<Rightarrow> fault + (SemanticAnalyser \<times> SizedType)"
where
  "func_attach_points st t [] = Inr (st, t)"
| "func_attach_points st t (ap # aps) =
    (case probetype (provider ap) of
       Inl f \<Rightarrow> Inl f
     | Inr ty \<Rightarrow>
         if ty = ProbeType_kprobe \<or> ty = ProbeType_kretprobe \<or> ty = ProbeType_tracepoint
         then func_attach_points st (SizedType2 Type_sym 8) aps
         else if ty = ProbeType_uprobe \<or> ty = ProbeType_uretprobe
         then func_attach_points st (SizedType2 Type_usym 8) aps
         else func_attach_points
                (put_err (''The func builtin can not be used with '' @ sq @ provider ap @ sq
                          @ '' probes'' @ endl) st) t aps)"

definition visit_Builtin ::
  "env \<Rightarrow> SemanticAnalyser \<Rightarrow> string \<Rightarrow> SizedType \<Rightarrow> fault + (SemanticAnalyser \<times> SizedType)"
where
  "visit_Builtin ev st ident t =
    (if ident = ''nsecs'' \<or> ident = ''pid'' \<or> ident = ''tid'' \<or> ident = ''uid''
        \<or> ident = ''gid'' \<or> ident = ''cpu'' \<or> ident = ''retval''
     then Inr (st, SizedType2 Type_integer 8)
     else if ident = ''stack''
     then Inr (st\<lparr>needs_stackid_map := True\<rparr>, SizedType2 Type_stack 8)
     else if ident = ''ustack''
     then Inr (st\<lparr>needs_stackid_map := True\<rparr>, SizedType2 Type_ustack 8)
     else if ident = ''comm''
     then Inr (st, SizedType2 Type_string (STRING_SIZE ev))
     else if ident = ''func''
     then (case probe st of
             None \<Rightarrow> Inl NullPointer
           | Some aps \<Rightarrow> func_attach_points st t aps)
     else if take 3 ident = ''arg'' \<and> length ident = 4
             \<and> (48::nat) \<le> of_char (ident ! 3) \<and> (of_char (ident ! 3) :: nat) \<le> 57
     then Inr ((if int (of_char (ident ! 3) - 48) > max_arg ev
                then put_err (arch_name ev @ '' doesn'' @ sq @ ''t support '' @ ident @ endl) st
                else st),
               SizedType2 Type_integer 8)
     else Inr (put_err (''Unknown builtin variable: '' @ sq @ ident @ sq @ endl) st,
               SizedType2 Type_none 0))"

subsection \<open>The checks of a call\<close>

definition check_assignment ::
  "SemanticAnalyser \<Rightarrow> string \<Rightarrow> bool \<Rightarrow> bool \<Rightarrow> bool \<Rightarrow> bool \<Rightarrow> SemanticAnalyser \<times> bool"
where
  "check_assignment st fn has_map has_var want_map want_var =
    (if want_map \<and> want_var then
       (if \<not> has_map \<and> \<not> has_var
        then (put_err (fn @ ''() should be assigned to a map or a variable'' @ endl) st, False)
        else (st, True))
     else if want_map then
       (if \<not> has_map
        then (put_err (fn @ ''() should be assigned to a map'' @ endl) st, False)
        else (st, True))
     else if want_var then
       (if \<not> has_var
        then (put_err (fn @ ''() should be assigned to a variable'' @ endl) st, False)
        else (st, True))
     else
       (if has_map \<or> has_var
        then (put_err (fn @ ''() should not be used in an assignment'' @ endl) st, False)
        else (st, True)))"

definition nargs_of :: "Expression list option \<Rightarrow> nat" where
  "nargs_of vargs = (case vargs of None \<Rightarrow> 0 | Some es \<Rightarrow> length es)"

definition check_nargs ::
  "SemanticAnalyser \<Rightarrow> string \<Rightarrow> Expression list option \<Rightarrow> nat \<Rightarrow> SemanticAnalyser \<times> bool"
where
  "check_nargs st fn vargs expected_nargs =
    (if nargs_of vargs \<noteq> expected_nargs
     then (put_err (fn @ ''() should take '' @ show_nat expected_nargs @ '' arguments (''
                    @ show_nat (nargs_of vargs) @ '' provided)'' @ endl) st, False)
     else (st, True))"

definition check_varargs ::
  "SemanticAnalyser \<Rightarrow> string \<Rightarrow> Expression list option \<Rightarrow> nat \<Rightarrow> nat \<Rightarrow> SemanticAnalyser \<times> bool"
where
  "check_varargs st fn vargs min_nargs max_nargs =
    (if nargs_of vargs < min_nargs
     then (put_err (fn @ ''() requires at least '' @ show_nat min_nargs @ '' argument (''
                    @ show_nat (nargs_of vargs) @ '' provided)'' @ endl) st, False)
     else if nargs_of vargs > max_nargs
     then (put_err (fn @ ''() can only take up to '' @ show_nat max_nargs @ '' arguments (''
                    @ show_nat (nargs_of vargs) @ '' provided)'' @ endl) st, False)
     else (st, True))"

text \<open>\<^verbatim>\<open>vargs->at(n)\<close>: a null list or an index out of range stops the process.\<close>

definition arg_at :: "Expression list option \<Rightarrow> nat \<Rightarrow> fault + Expression" where
  "arg_at vargs n =
    (case vargs of
       None \<Rightarrow> Inl NullPointer
     | Some es \<Rightarrow> if n < length es then Inr (es ! n) else Inl OutOfRange)"

definition check_arg ::
  "env \<Rightarrow> SemanticAnalyser \<Rightarrow> string \<Rightarrow> Expression list option \<Rightarrow> Type \<Rightarrow> nat \<Rightarrow> bool
   \<Rightarrow> fault + (SemanticAnalyser \<times> bool)"
where
  "check_arg ev st fn vargs ty arg_num want_literal =
    (case vargs of
       None \<Rightarrow> Inr (st, False)
     | Some es \<Rightarrow>
        (case arg_at vargs arg_num of
           Inl f \<Rightarrow> Inl f
         | Inr arg \<Rightarrow>
            if want_literal \<and> (\<not> is_literal arg \<or> type' (expr_type arg) \<noteq> ty)
            then Inr (put_err (fn @ ''() expects a '' @ typestr ty @ '' literal'' @ '' (''
                               @ typestr (type' (expr_type arg)) @ '' provided)'' @ endl) st,
                      False)
            else if is_final_pass ev st \<and> type' (expr_type arg) \<noteq> ty
            then Inr (put_err (fn @ ''() only supports '' @ typestr ty @ '' arguments'' @ '' (''
                               @ typestr (type' (expr_type arg)) @ '' provided)'' @ endl) st,
                      False)
            else Inr (st, True)))"

subsection \<open>Call\<close>

text \<open>
  \<^verbatim>\<open>visit(Call&)\<close> after the arguments have been visited: \<open>fn\<close> is
  \<^verbatim>\<open>call.func\<close>, \<open>vargs\<close> the visited arguments, \<open>has_map\<close> and \<open>has_var\<close>
  say whether \<^verbatim>\<open>call.map\<close> and \<^verbatim>\<open>call.var\<close> are set, and \<open>t\<close> is the
  type the node had. The result is the new state and the node's type.
\<close>

definition Call_rule ::
  "env \<Rightarrow> SemanticAnalyser \<Rightarrow> string \<Rightarrow> Expression list option \<Rightarrow> bool \<Rightarrow> bool \<Rightarrow> SizedType
   \<Rightarrow> fault + (SemanticAnalyser \<times> SizedType)"
where
  "Call_rule ev st fn vargs has_map has_var t =
    (if fn = ''quantize'' then
       (let st1 = fst (check_assignment st fn has_map has_var True False);
            st2 = fst (check_nargs st1 fn vargs 1)
        in case check_arg ev st2 fn vargs Type_integer 0 False of
             Inl f \<Rightarrow> Inl f
           | Inr (st3, ok) \<Rightarrow> Inr (st3, SizedType2 Type_quantize 8))
     else if fn = ''count'' then
       (let st1 = fst (check_assignment st fn has_map has_var True False);
            st2 = fst (check_nargs st1 fn vargs 0)
        in Inr (st2, SizedType2 Type_count 8))
     else if fn = ''delete'' then
       (let st1 = fst (check_assignment st fn has_map has_var False False);
            (st2, ok) = check_nargs st1 fn vargs 1
        in if ok then
             (case arg_at vargs 0 of
                Inl f \<Rightarrow> Inl f
              | Inr arg \<Rightarrow>
                  Inr ((if \<not> is_map arg
                        then put_err (''delete() expects a map to be provided'' @ endl) st2
                        else st2),
                       SizedType2 Type_none 0))
           else Inr (st2, SizedType2 Type_none 0))
     else if fn = ''str'' \<or> fn = ''sym'' \<or> fn = ''usym'' then
       (let st1 = fst (check_nargs st fn vargs 1)
        in case check_arg ev st1 fn vargs Type_integer 0 False of
             Inl f \<Rightarrow> Inl f
           | Inr (st2, ok) \<Rightarrow>
               Inr (st2,
                    if fn = ''str'' then SizedType2 Type_string (STRING_SIZE ev)
                    else if fn = ''sym'' then SizedType2 Type_sym 8
                    else if fn = ''usym'' then SizedType2 Type_usym 8
                    else t))
     else if fn = ''reg'' then
       (let (st1, ok) = check_nargs st fn vargs 1
        in if ok then
             (case check_arg ev st1 fn vargs Type_string 0 True of
                Inl f \<Rightarrow> Inl f
              | Inr (st2, ok2) \<Rightarrow>
                  if ok2 then
                    (case arg_at vargs 0 of
                       Inl f \<Rightarrow> Inl f
                     | Inr (String reg_name ty) \<Rightarrow>
                         Inr ((if arch_offset ev reg_name = - 1
                               then put_err (sq @ reg_name @ sq
                                      @ '' is not a valid register on this architecture''
                                      @ '' ('' @ arch_name ev @ '')'' @ endl) st2
                               else st2),
                              SizedType2 Type_integer 8)
                     | Inr other \<Rightarrow> Inl BadStaticCast)
                  else Inr (st2, SizedType2 Type_integer 8))
           else Inr (st1, SizedType2 Type_integer 8))
     else if fn = ''printf'' then
       (let st1 = fst (check_assignment st fn has_map has_var False False);
            (st2, ok) = check_varargs st1 fn vargs 1 7
        in if ok then
             (case check_arg ev st2 fn vargs Type_string 0 True of
                Inl f \<Rightarrow> Inl f
              | Inr (st3, ok3) \<Rightarrow>
                  if is_final_pass ev st3 then
                    (case arg_at vargs 0 of
                       Inl f \<Rightarrow> Inl f
                     | Inr (String fmt ty) \<Rightarrow>
                         (let args = map expr_type (drop 1 (case vargs of None \<Rightarrow> [] | Some es \<Rightarrow> es))
                          in Inr (st3\<lparr>err := err st3 @ verify_format_string ev fmt args,
                                      printf_args := printf_args st3 @ [(fmt, args)]\<rparr>,
                                  SizedType2 Type_none 0))
                     | Inr other \<Rightarrow> Inl BadStaticCast)
                  else Inr (st3, SizedType2 Type_none 0))
           else Inr (st2, SizedType2 Type_none 0))
     else
       Inr (put_err (''Unknown function: '' @ sq @ fn @ sq @ endl) st, SizedType2 Type_none 0))"

subsection \<open>Map and Variable\<close>

text \<open>The key of an access: kind and size of each visited index argument.\<close>

definition key_of :: "Expression list option \<Rightarrow> MapKey" where
  "key_of vargs =
    (case vargs of
       None \<Rightarrow> []
     | Some es \<Rightarrow> map (\<lambda>e. (type' (expr_type e), size' (expr_type e))) es)"

text \<open>
  Modelled from the spec: \<^verbatim>\<open>MapKey::operator!=\<close> is in a file that is absent. Two
  key signatures differ when their sequences of (kind, size) pairs differ.
\<close>

definition MapKey_ne :: "MapKey \<Rightarrow> MapKey \<Rightarrow> bool" where
  "MapKey_ne a b = (a \<noteq> b)"

text \<open>\<^verbatim>\<open>visit(Map&)\<close> after the index arguments have been visited.\<close>

definition Map_rule ::
  "env \<Rightarrow> SemanticAnalyser \<Rightarrow> string \<Rightarrow> Expression list option \<Rightarrow> SemanticAnalyser \<times> SizedType"
where
  "Map_rule ev st ident vargs =
    (let key = key_of vargs;
         st1 = (case map_key st ident of
                  Some k \<Rightarrow>
                    if MapKey_ne k key
                    then put_err (''Argument mismatch for '' @ ident @ '': ''
                           @ ''trying to access with arguments: '' @ argument_type_list ev key
                           @ endl @ tab @ ''when map expects arguments: ''
                           @ argument_type_list ev k @ endl @ endl) st
                    else st
                | None \<Rightarrow> st\<lparr>map_key := (map_key st)(ident \<mapsto> key)\<rparr>)
     in case map_val st1 ident of
          Some v \<Rightarrow> (st1, v)
        | None \<Rightarrow>
            ((if is_final_pass ev st1
              then put_err (''Undefined map: '' @ ident @ endl) st1
              else st1),
             SizedType2 Type_none 0))"

definition visit_Variable :: "SemanticAnalyser \<Rightarrow> string \<Rightarrow> SemanticAnalyser \<times> SizedType" where
  "visit_Variable st ident =
    (case variable_val st ident of
       Some v \<Rightarrow> (st, v)
     | None \<Rightarrow> (put_err (''Undefined variable: '' @ ident @ endl) st, SizedType2 Type_none 0))"

subsection \<open>Operators, field access, cast\<close>

text \<open>\<^verbatim>\<open>visit(Binop&)\<close> after both operands: \<open>lhs\<close> and \<open>rhs\<close> are their kinds.\<close>

definition Binop_rule ::
  "env \<Rightarrow> SemanticAnalyser \<Rightarrow> token \<Rightarrow> Type \<Rightarrow> Type \<Rightarrow> SemanticAnalyser \<times> SizedType"
where
  "Binop_rule ev st op lhs rhs =
    ((if is_final_pass ev st then
        (if lhs \<noteq> rhs
         then put_err (''Type mismatch for '' @ sq @ opstr_binop ev op @ sq @ '': ''
                @ ''comparing '' @ sq @ typestr lhs @ sq @ '' ''
                @ ''with '' @ sq @ typestr rhs @ sq @ endl) st
         else if lhs \<noteq> Type_integer \<and> op \<noteq> EQ \<and> op \<noteq> NE
         then put_err (''The '' @ opstr_binop ev op
                @ '' operator can not be used on expressions of type '' @ typestr lhs @ endl) st
         else st)
      else st),
     SizedType2 Type_integer 8)"

text \<open>
  \<^verbatim>\<open>visit(Unop&)\<close> after the operand: \<open>et\<close> is the operand's type, \<open>t\<close> the type
  the node had.
\<close>

definition Unop_rule ::
  "env \<Rightarrow> SemanticAnalyser \<Rightarrow> token \<Rightarrow> SizedType \<Rightarrow> SizedType
   \<Rightarrow> fault + (SemanticAnalyser \<times> SizedType)"
where
  "Unop_rule ev st op et t =
    (let st1 = (if is_final_pass ev st \<and> type' et \<noteq> Type_integer \<and> type' et \<noteq> Type_cast
                then put_err (''The '' @ opstr_unop ev op
                       @ '' operator can not be used on expressions of type '' @ sq
                       @ typestr (type' et) @ sq @ endl) st
                else st)
     in if op = MUL \<and> type' et = Type_cast then
          (if cast_type et = [] then Inl EmptyBack
           else if last (cast_type et) = star
           then Inr (st1, SizedType3 Type_cast 8 (butlast (cast_type et)))
           else Inr (put_err (''Can not dereference struct/union of type '' @ sq @ cast_type et
                       @ sq @ ''. '' @ ''It is not a pointer.'' @ endl) st1,
                     t))
        else Inr (st1, SizedType2 Type_integer 8))"

text \<open>
  \<^verbatim>\<open>structs_[name]\<close>: \<^verbatim>\<open>operator[]\<close> of the registry inserts an empty struct
  for a name it does not hold.
\<close>

definition structs_at :: "SemanticAnalyser \<Rightarrow> string \<Rightarrow> SemanticAnalyser \<times> Struct" where
  "structs_at st name =
    (case structs st name of
       Some s \<Rightarrow> (st, s)
     | None \<Rightarrow>
        (st\<lparr>structs := (structs st)(name \<mapsto> \<lparr>struct_size = 0, struct_fields = Map.empty\<rparr>)\<rparr>,
         \<lparr>struct_size = 0, struct_fields = Map.empty\<rparr>))"

text \<open>
  \<^verbatim>\<open>visit(FieldAccess&)\<close> after the base expression: \<open>et\<close> is the base's type,
  \<open>t\<close> the type the node had.
\<close>

definition FieldAccess_rule ::
  "env \<Rightarrow> SemanticAnalyser \<Rightarrow> string \<Rightarrow> SizedType \<Rightarrow> SizedType
   \<Rightarrow> fault + (SemanticAnalyser \<times> SizedType)"
where
  "FieldAccess_rule ev st field et t =
    (if type' et \<noteq> Type_cast then
       Inr ((if is_final_pass ev st
             then put_err (''Can not access field '' @ sq @ field @ sq
                    @ '' on expression of type '' @ sq @ typestr (type' et) @ sq @ endl) st
             else st),
            t)
     else if cast_type et = [] then Inl EmptyBack
     else if last (cast_type et) = star then
       Inr (put_err (''Can not access field '' @ sq @ field @ sq @ '' on type '' @ sq
              @ cast_type et @ sq @ ''. Try dereferencing it first, or using '' @ sq @ ''->''
              @ sq @ endl) st,
            t)
     else
       (let (st1, s) = structs_at st (cast_type et)
        in case struct_fields s field of
             None \<Rightarrow>
               Inr (put_err (''Struct/union of type '' @ sq @ cast_type et @ sq
                      @ '' does not contain '' @ ''a field named '' @ sq @ field @ sq @ endl) st1,
                    t)
           | Some ft \<Rightarrow> Inr (st1, ft)))"

text \<open>
  \<^verbatim>\<open>visit(Cast&)\<close> after the operand: \<open>c\<close> is \<^verbatim>\<open>cast.cast_type\<close>, \<open>t\<close> the
  type the node had.
\<close>

definition Cast_rule ::
  "env \<Rightarrow> SemanticAnalyser \<Rightarrow> string \<Rightarrow> SizedType \<Rightarrow> fault + (SemanticAnalyser \<times> SizedType)"
where
  "Cast_rule ev st c t =
    (if c = [] then Inl EmptyBack
     else
       (let base = (if last c = star then butlast c else c)
        in case structs st base of
             None \<Rightarrow> Inr (put_err (''Unknown struct/union: '' @ sq @ base @ sq @ endl) st, t)
           | Some b \<Rightarrow>
               if last c = star
               then Inr (st, SizedType3 Type_cast (sizeof_uintptr ev) c)
               else (let (st1, s) = structs_at st c
                     in Inr (st1, SizedType3 Type_cast (struct_size s) c))))"

subsection \<open>The walk over expressions\<close>

text \<open>
  \<^verbatim>\<open>accept\<close> on an expression: the children first, in the order of the source, then
  the rule of the node. The result is the state and the node with the types written
  into it. A fault of a child is the fault of the node.
\<close>

fun visit_expr ::
  "env \<Rightarrow> SemanticAnalyser \<Rightarrow> Expression \<Rightarrow> fault + (SemanticAnalyser \<times> Expression)"
and visit_exprs ::
  "env \<Rightarrow> SemanticAnalyser \<Rightarrow> Expression list
   \<Rightarrow> fault + (SemanticAnalyser \<times> Expression list)"
and visit_vargs ::
  "env \<Rightarrow> SemanticAnalyser \<Rightarrow> Expression list option
   \<Rightarrow> fault + (SemanticAnalyser \<times> Expression list option)"
where
  "visit_expr ev st (Integer n t) = Inr (st, Integer n visit_Integer)"
| "visit_expr ev st (String s t) =
    (case visit_String ev st s of (st1, t1) \<Rightarrow> Inr (st1, String s t1))"
| "visit_expr ev st (Builtin ident t) =
    (case visit_Builtin ev st ident t of
       Inl f \<Rightarrow> Inl f
     | Inr (st1, t1) \<Rightarrow> Inr (st1, Builtin ident t1))"
| "visit_expr ev st (Call fn vargs has_map has_var t) =
    (case visit_vargs ev st vargs of
       Inl f \<Rightarrow> Inl f
     | Inr (st1, vargs1) \<Rightarrow>
        (case Call_rule ev st1 fn vargs1 has_map has_var t of
           Inl f \<Rightarrow> Inl f
         | Inr (st2, t2) \<Rightarrow> Inr (st2, Call fn vargs1 has_map has_var t2)))"
| "visit_expr ev st (Map ident vargs t) =
    (case visit_vargs ev st vargs of
       Inl f \<Rightarrow> Inl f
     | Inr (st1, vargs1) \<Rightarrow>
        (case Map_rule ev st1 ident vargs1 of (st2, t2) \<Rightarrow> Inr (st2, Map ident vargs1 t2)))"
| "visit_expr ev st (Variable ident t) =
    (case visit_Variable st ident of (st1, t1) \<Rightarrow> Inr (st1, Variable ident t1))"
| "visit_expr ev st (Binop left op right t) =
    (case visit_expr ev st left of
       Inl f \<Rightarrow> Inl f
     | Inr (st1, left1) \<Rightarrow>
        (case visit_expr ev st1 right of
           Inl f \<Rightarrow> Inl f
         | Inr (st2, right1) \<Rightarrow>
            (case Binop_rule ev st2 op (type' (expr_type left1)) (type' (expr_type right1)) of
               (st3, t3) \<Rightarrow> Inr (st3, Binop left1 op right1 t3))))"
| "visit_expr ev st (Unop op e t) =
    (case visit_expr ev st e of
       Inl f \<Rightarrow> Inl f
     | Inr (st1, e1) \<Rightarrow>
        (case Unop_rule ev st1 op (expr_type e1) t of
           Inl f \<Rightarrow> Inl f
         | Inr (st2, t2) \<Rightarrow> Inr (st2, Unop op e1 t2)))"
| "visit_expr ev st (FieldAccess e field t) =
    (case visit_expr ev st e of
       Inl f \<Rightarrow> Inl f
     | Inr (st1, e1) \<Rightarrow>
        (case FieldAccess_rule ev st1 field (expr_type e1) t of
           Inl f \<Rightarrow> Inl f
         | Inr (st2, t2) \<Rightarrow> Inr (st2, FieldAccess e1 field t2)))"
| "visit_expr ev st (Cast c e t) =
    (case visit_expr ev st e of
       Inl f \<Rightarrow> Inl f
     | Inr (st1, e1) \<Rightarrow>
        (case Cast_rule ev st1 c t of
           Inl f \<Rightarrow> Inl f
         | Inr (st2, t2) \<Rightarrow> Inr (st2, Cast c e1 t2)))"
| "visit_exprs ev st [] = Inr (st, [])"
| "visit_exprs ev st (e # es) =
    (case visit_expr ev st e of
       Inl f \<Rightarrow> Inl f
     | Inr (st1, e1) \<Rightarrow>
        (case visit_exprs ev st1 es of
           Inl f \<Rightarrow> Inl f
         | Inr (st2, es1) \<Rightarrow> Inr (st2, e1 # es1)))"
| "visit_vargs ev st None = Inr (st, None)"
| "visit_vargs ev st (Some es) =
    (case visit_exprs ev st es of
       Inl f \<Rightarrow> Inl f
     | Inr (st1, es1) \<Rightarrow> Inr (st1, Some es1))"

subsection \<open>Statements\<close>

text \<open>\<^verbatim>\<open>map_val_[name]\<close> and \<^verbatim>\<open>variable_val_[name]\<close>: a missing entry reads as a fresh type.\<close>

definition val_at :: "(string \<rightharpoonup> SizedType) \<Rightarrow> string \<Rightarrow> SizedType" where
  "val_at m name = (case m name of Some v \<Rightarrow> v | None \<Rightarrow> SizedType0)"

text \<open>
  \<^verbatim>\<open>visit(AssignMapStatement&)\<close> after the map and the value have been visited:
  \<open>et\<close> is the type of the value.
\<close>

definition AssignMap_rule ::
  "env \<Rightarrow> SemanticAnalyser \<Rightarrow> string \<Rightarrow> SizedType \<Rightarrow> SemanticAnalyser"
where
  "AssignMap_rule ev st map_ident et =
    (let st1 =
       (case map_val st map_ident of
          Some v \<Rightarrow>
            if type' v = Type_none then
              (if is_final_pass ev st
               then put_err (''Undefined map: '' @ map_ident @ endl) st
               else st\<lparr>map_val := (map_val st)(map_ident \<mapsto> et)\<rparr>)
            else if type' v \<noteq> type' et then
              put_err (''Type mismatch for '' @ map_ident @ '': ''
                @ ''trying to assign value of type '' @ sq @ typestr (type' et)
                @ sq @ endl @ tab @ ''when map already contains a value of type '' @ sq
                @ typestr (type' v) @ sq @ endl @ endl) st
            else st
        | None \<Rightarrow> st\<lparr>map_val := (map_val st)(map_ident \<mapsto> et)\<rparr>)
     in if type' et = Type_cast then
          (let curr_cast_type = cast_type (val_at (map_val st1) map_ident)
           in if curr_cast_type \<noteq> [] \<and> curr_cast_type \<noteq> cast_type et
              then put_err (''Type mismatch for '' @ map_ident @ '': ''
                     @ ''trying to assign value of type '' @ sq @ cast_type et
                     @ sq @ endl @ tab @ ''when map already contains a value of type '' @ sq
                     @ curr_cast_type @ sq @ endl @ endl) st1
              else st1\<lparr>map_val := (map_val st1)
                         (map_ident \<mapsto> (val_at (map_val st1) map_ident)\<lparr>cast_type := cast_type et\<rparr>)\<rparr>)
        else st1)"

text \<open>
  \<^verbatim>\<open>visit(AssignVarStatement&)\<close> after the value has been visited: \<open>et\<close> is the
  type of the value, \<open>vt\<close> the type the variable node had. The result is the state and
  the type of the variable node.
\<close>

definition AssignVar_rule ::
  "env \<Rightarrow> SemanticAnalyser \<Rightarrow> string \<Rightarrow> SizedType \<Rightarrow> SizedType \<Rightarrow> SemanticAnalyser \<times> SizedType"
where
  "AssignVar_rule ev st var_ident vt et =
    (let (st1, vt1) =
       (case variable_val st var_ident of
          Some v \<Rightarrow>
            if type' v = Type_none then
              (if is_final_pass ev st
               then (put_err (''Undefined variable: '' @ var_ident @ endl) st, vt)
               else (st\<lparr>variable_val := (variable_val st)(var_ident \<mapsto> et)\<rparr>, vt))
            else if type' v \<noteq> type' et then
              (put_err (''Type mismatch for '' @ var_ident @ '': ''
                 @ ''trying to assign value of type '' @ sq @ typestr (type' et)
                 @ sq @ endl @ tab @ ''when variable already contains a value of type '' @ sq
                 @ typestr (type' v) @ sq @ endl @ endl) st, vt)
            else (st, vt)
        | None \<Rightarrow> (st\<lparr>variable_val := (variable_val st)(var_ident \<mapsto> et)\<rparr>, et))
     in if type' et = Type_cast then
          (let curr_cast_type = cast_type (val_at (variable_val st1) var_ident)
           in if curr_cast_type \<noteq> [] \<and> curr_cast_type \<noteq> cast_type et
              then (put_err (''Type mismatch for '' @ var_ident @ '': ''
                      @ ''trying to assign value of type '' @ sq @ cast_type et
                      @ sq @ endl @ tab @ ''when variable already contains a value of type '' @ sq
                      @ curr_cast_type @ sq @ endl @ endl) st1, vt1)
              else (st1\<lparr>variable_val := (variable_val st1)
                          (var_ident \<mapsto> (val_at (variable_val st1) var_ident)\<lparr>cast_type := cast_type et\<rparr>)\<rparr>,
                    vt1))
        else (st1, vt1))"

fun visit_stmt ::
  "env \<Rightarrow> SemanticAnalyser \<Rightarrow> Statement \<Rightarrow> fault + (SemanticAnalyser \<times> Statement)"
where
  "visit_stmt ev st (ExprStatement e) =
    (case visit_expr ev st e of
       Inl f \<Rightarrow> Inl f
     | Inr (st1, e1) \<Rightarrow> Inr (st1, ExprStatement e1))"
| "visit_stmt ev st (AssignMapStatement map_ident vargs mt e) =
    (case visit_vargs ev st vargs of
       Inl f \<Rightarrow> Inl f
     | Inr (st1, vargs1) \<Rightarrow>
        (case Map_rule ev st1 map_ident vargs1 of
           (st2, mt2) \<Rightarrow>
            (case visit_expr ev st2 e of
               Inl f \<Rightarrow> Inl f
             | Inr (st3, e1) \<Rightarrow>
                 Inr (AssignMap_rule ev st3 map_ident (expr_type e1),
                      AssignMapStatement map_ident vargs1 mt2 e1))))"
| "visit_stmt ev st (AssignVarStatement var_ident vt e) =
    (case visit_expr ev st e of
       Inl f \<Rightarrow> Inl f
     | Inr (st1, e1) \<Rightarrow>
        (case AssignVar_rule ev st1 var_ident vt (expr_type e1) of
           (st2, vt2) \<Rightarrow> Inr (st2, AssignVarStatement var_ident vt2 e1)))"

fun visit_stmts ::
  "env \<Rightarrow> SemanticAnalyser \<Rightarrow> Statement list \<Rightarrow> fault + (SemanticAnalyser \<times> Statement list)"
where
  "visit_stmts ev st [] = Inr (st, [])"
| "visit_stmts ev st (s # ss) =
    (case visit_stmt ev st s of
       Inl f \<Rightarrow> Inl f
     | Inr (st1, s1) \<Rightarrow>
        (case visit_stmts ev st1 ss of
           Inl f \<Rightarrow> Inl f
         | Inr (st2, ss1) \<Rightarrow> Inr (st2, s1 # ss1)))"

subsection \<open>Predicate, attach point, probe, program\<close>

definition visit_Predicate ::
  "env \<Rightarrow> SemanticAnalyser \<Rightarrow> Expression \<Rightarrow> fault + (SemanticAnalyser \<times> Expression)"
where
  "visit_Predicate ev st e =
    (case visit_expr ev st e of
       Inl f \<Rightarrow> Inl f
     | Inr (st1, e1) \<Rightarrow>
         Inr ((if is_final_pass ev st1 \<and> type' (expr_type e1) \<noteq> Type_integer
               then put_err (''Invalid type for predicate: '' @ typestr (type' (expr_type e1))
                             @ endl) st1
               else st1),
              e1))"

definition when_err :: "bool \<Rightarrow> string \<Rightarrow> SemanticAnalyser \<Rightarrow> SemanticAnalyser" where
  "when_err c s st = (if c then put_err s st else st)"

definition visit_AttachPoint :: "env \<Rightarrow> SemanticAnalyser \<Rightarrow> AttachPoint \<Rightarrow> SemanticAnalyser" where
  "visit_AttachPoint ev st ap =
    (if provider ap = ''kprobe'' \<or> provider ap = ''kretprobe'' then
       when_err (func ap = []) (''kprobes should be attached to a function'' @ endl)
         (when_err (target ap \<noteq> []) (''kprobes should not have a target'' @ endl) st)
     else if provider ap = ''uprobe'' \<or> provider ap = ''uretprobe'' then
       when_err (func ap = []) (''uprobes should be attached to a function'' @ endl)
         (when_err (target ap = []) (''uprobes should have a target'' @ endl) st)
     else if provider ap = ''tracepoint'' then
       when_err (target ap = [] \<or> func ap = [])
         (''tracepoint probe must have a target'' @ endl) st
     else if provider ap = ''profile'' then
       (let st1 =
          (if target ap = []
           then put_err (''profile probe must have unit of time'' @ endl) st
           else if target ap \<noteq> ''hz'' \<and> target ap \<noteq> ''us'' \<and> target ap \<noteq> ''ms''
                   \<and> target ap \<noteq> ''s''
           then put_err (target ap @ '' is not an accepted unit of time'' @ endl) st
           else st)
        in if func ap \<noteq> []
           then put_err (''profile probe must have an integer frequency'' @ endl) st1
           else if freq ap \<le> 0
           then put_err (''profile frequency should be a positive integer'' @ endl) st1
           else st1)
     else if provider ap = ''BEGIN'' \<or> provider ap = ''END'' then
       (let st1 = when_err (target ap \<noteq> [] \<or> func ap \<noteq> [])
                    (''BEGIN/END probes should not have a target'' @ endl) st
        in if is_final_pass ev st1 then
             (let st2 =
                (if provider ap = ''BEGIN''
                 then (when_err (has_begin_probe st1)
                         (''More than one BEGIN probe defined'' @ endl) st1)
                      \<lparr>has_begin_probe := True\<rparr>
                 else st1)
              in if provider ap = ''END''
                 then (when_err (has_end_probe st2)
                         (''More than one END probe defined'' @ endl) st2)
                      \<lparr>has_end_probe := True\<rparr>
                 else st2)
           else st1)
     else put_err (''Invalid provider: '' @ sq @ provider ap @ sq @ endl) st)"

fun visit_AttachPoints :: "env \<Rightarrow> SemanticAnalyser \<Rightarrow> AttachPoint list \<Rightarrow> SemanticAnalyser" where
  "visit_AttachPoints ev st [] = st"
| "visit_AttachPoints ev st (ap # aps) = visit_AttachPoints ev (visit_AttachPoint ev st ap) aps"

text \<open>
  \<^verbatim>\<open>visit(Probe&)\<close>: the variables are cleared, the probe becomes the current
  one, then the attach points, the predicate and the statements; on the final pass the
  probe, as annotated, goes to \<^verbatim>\<open>add_probe\<close>.
\<close>

fun visit_Probe ::
  "env \<Rightarrow> SemanticAnalyser \<Rightarrow> Probe \<Rightarrow> fault + (SemanticAnalyser \<times> Probe)"
where
  "visit_Probe ev st (Probe aps pr ss) =
    (let st0 = st\<lparr>variable_val := Map.empty, probe := Some aps\<rparr>;
         st1 = visit_AttachPoints ev st0 aps
     in case (case pr of
                None \<Rightarrow> Inr (st1, None)
              | Some e \<Rightarrow>
                 (case visit_Predicate ev st1 e of
                    Inl f \<Rightarrow> Inl f
                  | Inr (st2, e1) \<Rightarrow> Inr (st2, Some e1))) of
          Inl f \<Rightarrow> Inl f
        | Inr (st2, pr1) \<Rightarrow>
           (case visit_stmts ev st2 ss of
              Inl f \<Rightarrow> Inl f
            | Inr (st3, ss1) \<Rightarrow>
                Inr ((if is_final_pass ev st3
                      then st3\<lparr>added_probes := added_probes st3 @ [Probe aps pr1 ss1]\<rparr>
                      else st3),
                     Probe aps pr1 ss1)))"

fun visit_Probes ::
  "env \<Rightarrow> SemanticAnalyser \<Rightarrow> Probe list \<Rightarrow> fault + (SemanticAnalyser \<times> Probe list)"
where
  "visit_Probes ev st [] = Inr (st, [])"
| "visit_Probes ev st (p # ps) =
    (case visit_Probe ev st p of
       Inl f \<Rightarrow> Inl f
     | Inr (st1, p1) \<Rightarrow>
        (case visit_Probes ev st1 ps of
           Inl f \<Rightarrow> Inl f
         | Inr (st2, ps1) \<Rightarrow> Inr (st2, p1 # ps1)))"

text \<open>\<^verbatim>\<open>visit(Program&)\<close>: the includes are visited to no effect, then the probes.\<close>

fun visit_Program ::
  "env \<Rightarrow> SemanticAnalyser \<Rightarrow> Program \<Rightarrow> fault + (SemanticAnalyser \<times> Program)"
where
  "visit_Program ev st (Program incs ps) =
    (case visit_Probes ev st ps of
       Inl f \<Rightarrow> Inl f
     | Inr (st1, ps1) \<Rightarrow> Inr (st1, Program incs ps1))"

section \<open>The pass driver\<close>

text \<open>
  \<^verbatim>\<open>analyse\<close>: the loop \<^verbatim>\<open>for (pass_ = 1; pass_ <= num_passes_; pass_++)\<close>, with
  \<open>p\<close> the value of \<^verbatim>\<open>pass_\<close> at the head of the loop. The result is the returned
  number, the final state and the annotated tree.
\<close>

function analyse_loop ::
  "env \<Rightarrow> int \<Rightarrow> SemanticAnalyser \<Rightarrow> Program \<Rightarrow> fault + (int \<times> SemanticAnalyser \<times> Program)"
where
  "analyse_loop ev p st root =
    (if p \<le> num_passes ev then
       (case visit_Program ev (st\<lparr>pass := p\<rparr>) root of
          Inl f \<Rightarrow> Inl f
        | Inr (st1, root1) \<Rightarrow>
            if err st1 \<noteq> []
            then Inr (p, st1\<lparr>out := out st1 @ err st1\<rparr>, root1)
            else analyse_loop ev (p + 1) st1 root1)
     else Inr (0, st\<lparr>pass := p\<rparr>, root))"
  by pat_completeness auto
termination
  by (relation "measure (\<lambda>(ev, p, st, root). nat (num_passes ev + 1 - p))") auto

declare analyse_loop.simps [simp del]

definition analyse ::
  "env \<Rightarrow> SemanticAnalyser \<Rightarrow> Program \<Rightarrow> fault + (int \<times> SemanticAnalyser \<times> Program)"
where
  "analyse ev st root = analyse_loop ev 1 st root"

text \<open>A freshly constructed analyser, for a given struct registry.\<close>

definition new_analyser :: "(string \<rightharpoonup> Struct) \<Rightarrow> SemanticAnalyser" where
  "new_analyser reg =
    \<lparr>pass = 0, err = [], out = [], map_key = Map.empty, map_val = Map.empty,
     variable_val = Map.empty, needs_stackid_map = False, has_begin_probe = False,
     has_end_probe = False, probe = None, structs = reg, printf_args = [],
     added_probes = []\<rparr>"

section \<open>What a visit leaves alone\<close>

text \<open>
  \<open>frame st st'\<close>: from \<open>st\<close> to \<open>st'\<close> the error stream has only grown, and the pass
  number, the output, the value types of maps and variables, the BEGIN/END flags, the
  current probe and the registered probes are the same.
\<close>

definition frame :: "SemanticAnalyser \<Rightarrow> SemanticAnalyser \<Rightarrow> bool" where
  "frame st st' =
    (pass st' = pass st \<and> out st' = out st \<and> map_val st' = map_val st
     \<and> variable_val st' = variable_val st \<and> has_begin_probe st' = has_begin_probe st
     \<and> has_end_probe st' = has_end_probe st \<and> probe st' = probe st
     \<and> added_probes st' = added_probes st \<and> prefix (err st) (err st'))"

text \<open>
  An example environment: 64-byte strings, six argument registers, one known register, a
  format verifier that accepts everything, \<open>n\<close> passes.
\<close>

definition example_env :: "int \<Rightarrow> env" where
  "example_env n =
    \<lparr>STRING_SIZE = 64, num_passes = n, max_arg = 5, arch_name = ''x86_64'',
     arch_offset = (\<lambda>r. if r = ''ip'' then 16 else - 1),
     verify_format_string = (\<lambda>fmt args. []),
     argument_type_list = (\<lambda>k. concat (map (\<lambda>a. typestr (fst a) @ '' '') k)),
     opstr_binop = (\<lambda>t. if t = EQ then ''=='' else if t = NE then ''!='' else ''*''),
     opstr_unop = (\<lambda>t. ''*''), sizeof_uintptr = 8\<rparr>"

text \<open>Example programs. An attach point with no frequency:\<close>

definition attach :: "string \<Rightarrow> string \<Rightarrow> string \<Rightarrow> AttachPoint" where
  "attach p t f = \<lparr>provider = p, target = t, func = f, freq = 0\<rparr>"


text \<open>
  The text of the two type-mismatch diagnostics of an assignment: \<open>holder\<close> is
  \<^verbatim>\<open>map\<close> or \<^verbatim>\<open>variable\<close>, \<open>new\<close> and \<open>old\<close> are the printed kinds, or the
  struct names, of the assigned and of the recorded type.
\<close>

definition mismatch_text :: "string \<Rightarrow> string \<Rightarrow> string \<Rightarrow> string \<Rightarrow> string" where
  "mismatch_text holder ident new old =
    ''Type mismatch for '' @ ident @ '': '' @ ''trying to assign value of type '' @ sq @ new
    @ sq @ endl @ tab @ ''when '' @ holder @ '' already contains a value of type '' @ sq @ old
    @ sq @ endl @ endl"

text \<open>A struct registry that knows the struct \<^verbatim>\<open>foo\<close>, of 16 bytes and no fields.\<close>

definition foo_registry :: "string \<rightharpoonup> Struct" where
  "foo_registry = [''foo'' \<mapsto> \<lparr>struct_size = 16, struct_fields = Map.empty\<rparr>]"

text \<open>
  \<^verbatim>\<open>kprobe:f { *@x; @x = (foo)arg0 }\<close>: a map is dereferenced before it is assigned a
  struct that is not a pointer.
\<close>

definition deref_program :: Program where
  "deref_program =
    Program []
      [Probe [attach ''kprobe'' [] ''f''] None
        [ExprStatement (Unop MUL (Map ''x'' None SizedType0) SizedType0),
         AssignMapStatement ''x'' None SizedType0
           (Cast ''foo'' (Builtin ''arg0'' SizedType0) SizedType0)]]"

section \<open>Successive walks\<close>

text \<open>
  \<open>walks_from ev p k st root\<close>: the state and the tree after \<open>k\<close> successive walks of
  the whole tree, the first with pass number \<open>p\<close>, the next with \<open>p + 1\<close>, and so on,
  whatever the walks report. A fault of a walk is the fault of the sequence.
\<close>

fun walks_from ::
  "env \<Rightarrow> int \<Rightarrow> nat \<Rightarrow> SemanticAnalyser \<Rightarrow> Program \<Rightarrow> fault + (SemanticAnalyser \<times> Program)"
where
  "walks_from ev p 0 st root = Inr (st, root)"
| "walks_from ev p (Suc k) st root =
    (case visit_Program ev (st\<lparr>pass := p\<rparr>) root of
       Inl f \<Rightarrow> Inl f
     | Inr (st1, root1) \<Rightarrow> walks_from ev (p + 1) k st1 root1)"

text \<open>
  \<open>clean_walks ev p k st root\<close>: each of these \<open>k\<close> walks returns, with an empty error
  stream.
\<close>

fun clean_walks :: "env \<Rightarrow> int \<Rightarrow> nat \<Rightarrow> SemanticAnalyser \<Rightarrow> Program \<Rightarrow> bool" where
  "clean_walks ev p 0 st root = True"
| "clean_walks ev p (Suc k) st root =
    (case visit_Program ev (st\<lparr>pass := p\<rparr>) root of
       Inl f \<Rightarrow> False
     | Inr (st1, root1) \<Rightarrow> err st1 = [] \<and> clean_walks ev (p + 1) k st1 root1)"

text \<open>
  \<^verbatim>\<open>kprobe:fn { @m; @m = n }\<close> and \<^verbatim>\<open>kprobe:fn { $x; $x = n }\<close>: a map, and a
  variable, read in an expression statement before an integer is assigned to it. The
  last three arguments are the types the three expression nodes start with.
\<close>

definition forward_map_program ::
  "string list \<Rightarrow> string \<Rightarrow> string \<Rightarrow> int \<Rightarrow> SizedType \<Rightarrow> SizedType \<Rightarrow> SizedType \<Rightarrow> Program"
where
  "forward_map_program incs fn m n t0 t1 t2 =
    Program incs
      [Probe [attach ''kprobe'' [] fn] None
        [ExprStatement (Map m None t0), AssignMapStatement m None t1 (Integer n t2)]]"

definition forward_variable_program ::
  "string list \<Rightarrow> string \<Rightarrow> string \<Rightarrow> int \<Rightarrow> SizedType \<Rightarrow> SizedType \<Rightarrow> SizedType \<Rightarrow> Program"
where
  "forward_variable_program incs fn x n t0 t1 t2 =
    Program incs
      [Probe [attach ''kprobe'' [] fn] None
        [ExprStatement (Variable x t0), AssignVarStatement x t1 (Integer n t2)]]"



text \<open>\<^verbatim>\<open>BEGIN { } BEGIN { }\<close>\<close>

definition two_begin_program :: "string list \<Rightarrow> Program" where
  "two_begin_program incs =
    Program incs [Probe [attach ''BEGIN'' [] []] None [], Probe [attach ''BEGIN'' [] []] None []]"

section \<open>Counting BEGIN attach points\<close>

text \<open>
  \<open>grows st st'\<close>: from \<open>st\<close> to \<open>st'\<close> the pass number and the output are the same,
  the error stream has only grown, and a BEGIN probe that was seen is still seen.
\<close>

definition grows :: "SemanticAnalyser \<Rightarrow> SemanticAnalyser \<Rightarrow> bool" where
  "grows st st' =
    (pass st' = pass st \<and> out st' = out st \<and> prefix (err st) (err st')
     \<and> (has_begin_probe st' \<or> \<not> has_begin_probe st))"

text \<open>The diagnostic for a second BEGIN probe, and an error stream that has gained it.\<close>

definition begin_text :: string where
  "begin_text = ''More than one BEGIN probe defined'' @ endl"

definition dup_begin :: "SemanticAnalyser \<Rightarrow> SemanticAnalyser \<Rightarrow> bool" where
  "dup_begin st st' = (\<exists>a b. err st' = err st @ a @ begin_text @ b)"

text \<open>
  \<open>begin_progress c st st'\<close>: what going through \<open>c\<close> BEGIN attach points on the final
  pass does: afterwards a BEGIN probe is seen if one was seen before or \<open>c\<close> is at least
  1, and the diagnostic has been written if that makes two or more.
\<close>

definition begin_progress :: "nat \<Rightarrow> SemanticAnalyser \<Rightarrow> SemanticAnalyser \<Rightarrow> bool" where
  "begin_progress c st st' =
    (grows st st'
     \<and> (has_begin_probe st' \<or> \<not> 1 \<le> (if has_begin_probe st then 1 else 0) + c)
     \<and> (dup_begin st st' \<or> \<not> 2 \<le> (if has_begin_probe st then 1 else 0) + c))"

text \<open>The number of attach points with provider BEGIN in a program.\<close>

definition begin_points_of :: "Probe list \<Rightarrow> nat" where
  "begin_points_of ps =
    length (filter (\<lambda>ap. provider ap = ''BEGIN'') (concat (map attach_points ps)))"

definition begin_points :: "Program \<Rightarrow> nat" where
  "begin_points root = begin_points_of (probes root)"

section \<open>Expressions never touch the value types, the pass number or the flags\<close>

lemma frame_refl [simp]: "frame st st"
  by (simp add: frame_def)

lemma frame_trans: "frame a b \<Longrightarrow> frame b c \<Longrightarrow> frame a c"
  by (auto simp: frame_def)

lemma frame_put_err [simp]: "frame st (put_err s st)"
  by (simp add: frame_def put_err_def)

lemma frame_put_err': "frame st st1 \<Longrightarrow> frame st (put_err s st1)"
  by (auto simp: frame_def put_err_def prefix_def)

lemma is_final_pass_frame: "frame st st' \<Longrightarrow> is_final_pass ev st' = is_final_pass ev st"
  by (simp add: frame_def is_final_pass_def)

lemma frame_visit_String: "visit_String ev st s = (st', t') \<Longrightarrow> frame st st'"
  by (auto simp: visit_String_def split: if_splits)

lemma frame_func_attach_points:
  "func_attach_points st t aps = Inr (st', t') \<Longrightarrow> frame st st'"
proof (induction aps arbitrary: st t)
  case Nil
  then show ?case by simp
next
  case (Cons ap aps)
  then show ?case
    by (auto split: sum.splits if_splits intro: frame_trans [OF frame_put_err])
qed

lemma frame_visit_Builtin: "visit_Builtin ev st ident t = Inr (st', t') \<Longrightarrow> frame st st'"
  by (auto simp: visit_Builtin_def frame_func_attach_points split: if_splits option.splits)
     (auto simp: frame_def)

lemma frame_check_assignment: "frame st (fst (check_assignment st fn m v wm wv))"
  by (simp add: check_assignment_def)

lemma frame_check_nargs: "frame st (fst (check_nargs st fn vargs n))"
  by (simp add: check_nargs_def)

lemma frame_check_varargs: "frame st (fst (check_varargs st fn vargs n m))"
  by (simp add: check_varargs_def)

lemma frame_check_arg: "check_arg ev st fn vargs ty n w = Inr (st', ok) \<Longrightarrow> frame st st'"
  by (auto simp: check_arg_def split: option.splits sum.splits if_splits)

lemma frame_Call_rule:
  assumes "Call_rule ev st fn vargs m v t = Inr (st', t')"
  shows "frame st st'"
proof -
  let ?a = "\<lambda>wm wv. fst (check_assignment st fn m v wm wv)"
  have fa: "frame st (?a wm wv)" for wm wv
    by (rule frame_check_assignment)
  consider (quantize) "fn = ''quantize''" | (count) "fn = ''count''" | (delete) "fn = ''delete''"
    | (str) "fn = ''str'' \<or> fn = ''sym'' \<or> fn = ''usym''" | (reg) "fn = ''reg''"
    | (printf) "fn = ''printf''"
    | (other) "fn \<noteq> ''quantize''" "fn \<noteq> ''count''" "fn \<noteq> ''delete''" "fn \<noteq> ''str''"
        "fn \<noteq> ''sym''" "fn \<noteq> ''usym''" "fn \<noteq> ''reg''" "fn \<noteq> ''printf''"
    by blast
  then show ?thesis
  proof cases
    case quantize
    with assms obtain ok where
      "check_arg ev (fst (check_nargs (?a True False) fn vargs 1)) fn vargs Type_integer 0 False
         = Inr (st', ok)"
      by (auto simp: Call_rule_def Let_def split: sum.splits)
    from frame_check_arg [OF this] show ?thesis
      by (blast intro: frame_trans fa frame_check_nargs)
  next
    case count
    with assms have "st' = fst (check_nargs (?a True False) fn vargs 0)"
      by (auto simp: Call_rule_def Let_def)
    then show ?thesis
      by (blast intro: frame_trans fa frame_check_nargs)
  next
    case delete
    let ?s2 = "fst (check_nargs (?a False False) fn vargs 1)"
    have "frame st ?s2"
      by (blast intro: frame_trans fa frame_check_nargs)
    moreover from delete assms have "st' = ?s2 \<or> st' = put_err (''delete() expects a map to be provided'' @ endl) ?s2"
      by (auto simp: Call_rule_def Let_def split: sum.splits if_splits prod.splits)
    ultimately show ?thesis
      by (auto intro: frame_put_err')
  next
    case str
    with assms obtain ok where
      "check_arg ev (fst (check_nargs st fn vargs 1)) fn vargs Type_integer 0 False = Inr (st', ok)"
      by (auto simp: Call_rule_def Let_def split: sum.splits)
    from frame_check_arg [OF this] show ?thesis
      by (blast intro: frame_trans frame_check_nargs)
  next
    case reg
    let ?s1 = "fst (check_nargs st fn vargs 1)"
    have f1: "frame st ?s1"
      by (rule frame_check_nargs)
    from reg assms consider "st' = ?s1"
      | ok where "check_arg ev ?s1 fn vargs Type_string 0 True = Inr (st', ok)"
      | ok s2 msg where "check_arg ev ?s1 fn vargs Type_string 0 True = Inr (s2, ok)"
          "st' = put_err msg s2"
      by (auto simp: Call_rule_def Let_def split: sum.splits if_splits prod.splits Expression.splits)
    then show ?thesis
    proof cases
      case 1
      with f1 show ?thesis by simp
    next
      case 2
      from frame_check_arg [OF this] f1 show ?thesis
        by (blast intro: frame_trans)
    next
      case 3
      from frame_check_arg [OF 3(1)] f1 3(2) show ?thesis
        by (blast intro: frame_trans frame_put_err')
    qed
  next
    case printf
    let ?s2 = "fst (check_varargs (?a False False) fn vargs 1 7)"
    have f2: "frame st ?s2"
      by (blast intro: frame_trans fa frame_check_varargs)
    from printf assms consider "st' = ?s2"
      | ok where "check_arg ev ?s2 fn vargs Type_string 0 True = Inr (st', ok)"
      | ok s3 e p where "check_arg ev ?s2 fn vargs Type_string 0 True = Inr (s3, ok)"
          "st' = s3\<lparr>err := err s3 @ e, printf_args := p\<rparr>"
      by (auto simp: Call_rule_def Let_def split: sum.splits if_splits prod.splits Expression.splits)
    then show ?thesis
    proof cases
      case 1
      with f2 show ?thesis by simp
    next
      case 2
      from frame_check_arg [OF this] f2 show ?thesis
        by (blast intro: frame_trans)
    next
      case 3
      from frame_check_arg [OF 3(1)] f2 have "frame st s3"
        by (blast intro: frame_trans)
      with 3(2) show ?thesis
        by (auto simp: frame_def prefix_def)
    qed
  next
    case other
    with assms have "st' = put_err (''Unknown function: '' @ sq @ fn @ sq @ endl) st"
      by (auto simp: Call_rule_def)
    then show ?thesis by simp
  qed
qed

lemma frame_Map_rule: "Map_rule ev st ident vargs = (st', t') \<Longrightarrow>
  pass st' = pass st \<and> out st' = out st \<and> map_val st' = map_val st
     \<and> variable_val st' = variable_val st \<and> has_begin_probe st' = has_begin_probe st
     \<and> has_end_probe st' = has_end_probe st \<and> probe st' = probe st
     \<and> added_probes st' = added_probes st \<and> prefix (err st) (err st')"
  by (auto simp: Map_rule_def MapKey_ne_def Let_def put_err_def is_final_pass_def split: option.splits if_splits)

lemma frame_Map_rule': "Map_rule ev st ident vargs = (st', t') \<Longrightarrow> frame st st'"
  unfolding frame_def by (rule frame_Map_rule)

lemma frame_visit_Variable: "visit_Variable st ident = (st', t') \<Longrightarrow> frame st st'"
  by (auto simp: visit_Variable_def split: option.splits)

lemma frame_Binop_rule: "Binop_rule ev st op l r = (st', t') \<Longrightarrow> frame st st'"
  by (auto simp: Binop_rule_def split: if_splits)

lemma frame_Unop_rule: "Unop_rule ev st op et t = Inr (st', t') \<Longrightarrow> frame st st'"
  by (auto simp: Unop_rule_def Let_def split: if_splits intro: frame_put_err')

lemma frame_structs_at: "structs_at st n = (st', s) \<Longrightarrow> frame st st'"
  by (auto simp: structs_at_def frame_def split: option.splits)

lemma frame_FieldAccess_rule: "FieldAccess_rule ev st f et t = Inr (st', t') \<Longrightarrow> frame st st'"
  by (auto simp: FieldAccess_rule_def Let_def split: if_splits prod.splits option.splits
      intro: frame_put_err' dest: frame_structs_at)

lemma frame_Cast_rule: "Cast_rule ev st c t = Inr (st', t') \<Longrightarrow> frame st st'"
  by (auto simp: Cast_rule_def Let_def split: if_splits prod.splits option.splits
      dest: frame_structs_at)

lemma frame_visit_expr:
  "visit_expr ev st e = Inr (st', e') \<Longrightarrow> frame st st'"
  "visit_exprs ev st es = Inr (st', es') \<Longrightarrow> frame st st'"
  "visit_vargs ev st vargs = Inr (st', vargs') \<Longrightarrow> frame st st'"
proof (induction ev st e and ev st es and ev st vargs arbitrary: st' e' and st' es' and st' vargs'
    rule: visit_expr_visit_exprs_visit_vargs.induct)
  case (1 ev st n t)
  then show ?case by auto
next
  case (2 ev st s t)
  then show ?case by (auto split: prod.splits dest: frame_visit_String)
next
  case (3 ev st ident t)
  then show ?case by (auto split: sum.splits dest: frame_visit_Builtin)
next
  case (4 ev st fn vargs has_map has_var t)
  then show ?case
    by (auto split: sum.splits dest!: frame_Call_rule intro: frame_trans)
next
  case (5 ev st ident vargs t)
  then show ?case
    by (auto split: sum.splits prod.splits dest!: frame_Map_rule' intro: frame_trans)
next
  case (6 ev st ident t)
  then show ?case by (auto split: prod.splits dest: frame_visit_Variable)
next
  case (7 ev st left op right t)
  from "7.prems" obtain s1 l1 s2 r1 t3 where
    a: "visit_expr ev st left = Inr (s1, l1)" and
    b: "visit_expr ev s1 right = Inr (s2, r1)" and
    c: "Binop_rule ev s2 op (type' (expr_type l1)) (type' (expr_type r1)) = (st', t3)"
    by (auto split: sum.splits prod.splits)
  from "7.IH"(1) a have "frame st s1" by blast
  moreover from "7.IH"(2) a b have "frame s1 s2" by blast
  moreover from c have "frame s2 st'" by (rule frame_Binop_rule)
  ultimately show ?case by (blast intro: frame_trans)
next
  case (8 ev st op e t)
  then show ?case
    by (auto split: sum.splits dest!: frame_Unop_rule intro: frame_trans)
next
  case (9 ev st e field t)
  then show ?case
    by (auto split: sum.splits dest!: frame_FieldAccess_rule intro: frame_trans)
next
  case (10 ev st c e t)
  then show ?case
    by (auto split: sum.splits dest!: frame_Cast_rule intro: frame_trans)
next
  case (11 ev st)
  then show ?case by auto
next
  case (12 ev st e es)
  from "12.prems" obtain s1 e1 es1 where
    a: "visit_expr ev st e = Inr (s1, e1)" and
    b: "visit_exprs ev s1 es = Inr (st', es1)"
    by (auto split: sum.splits)
  from "12.IH"(1) a have "frame st s1" by blast
  moreover from "12.IH"(2) a b have "frame s1 st'" by blast
  ultimately show ?case by (blast intro: frame_trans)
next
  case (13 ev st)
  then show ?case by auto
next
  case (14 ev st es)
  then show ?case by (auto split: sum.splits)
qed


section \<open>String literals\<close>

text \<open>
  Claim C8. With a positive \<^verbatim>\<open>STRING_SIZE\<close> (a C \<^verbatim>\<open>int\<close>), visiting a string
  literal of exactly \<^verbatim>\<open>STRING_SIZE - 1\<close> bytes leaves the analyser as it was, so no
  diagnostic is written; visiting one of \<^verbatim>\<open>STRING_SIZE\<close> bytes or more appends to the
  error stream the diagnostic that the string is too long, and changes nothing else. In both
  cases the literal's type becomes kind string, size \<^verbatim>\<open>STRING_SIZE\<close>, no struct name.
\<close>

theorem string_literal_size_bound:
  assumes "0 < STRING_SIZE ev" and "STRING_SIZE ev < 2 ^ 31"
  shows "(length s = STRING_SIZE ev - 1 \<longrightarrow>
            visit_expr ev st (String s t)
              = Inr (st,
                     String s \<lparr>type' = Type_string, size' = STRING_SIZE ev, cast_type = []\<rparr>))
       \<and> (STRING_SIZE ev \<le> length s \<longrightarrow>
            visit_expr ev st (String s t)
              = Inr (st\<lparr>err := err st @ ''String is too long (over ''
                                 @ show_nat (STRING_SIZE ev) @ '' bytes): '' @ s @ [CHR 0x0A]\<rparr>,
                     String s \<lparr>type' = Type_string, size' = STRING_SIZE ev, cast_type = []\<rparr>))"
proof -
  from assms have "int (STRING_SIZE ev) - 1 < 2 ^ 64" "0 \<le> int (STRING_SIZE ev) - 1"
    by simp_all
  then have m: "(int (STRING_SIZE ev) - 1) mod 2 ^ 64 = int (STRING_SIZE ev) - 1"
    by simp
  show ?thesis
    using assms by (auto simp: visit_String_def m put_err_def SizedType2_def endl_def)
qed

theorem string_literal_size_bound_witness:
  "visit_expr (example_env 2) (new_analyser Map.empty)
       (String (replicate 63 CHR ''a'') SizedType0)
     = Inr (new_analyser Map.empty,
            String (replicate 63 CHR ''a'')
              \<lparr>type' = Type_string, size' = 64, cast_type = []\<rparr>)
   \<and> visit_expr (example_env 2) (new_analyser Map.empty)
       (String (replicate 64 CHR ''a'') SizedType0)
     = Inr ((new_analyser Map.empty)
              \<lparr>err := ''String is too long (over 64 bytes): '' @ replicate 64 CHR ''a''
                       @ [CHR 0x0A]\<rparr>,
            String (replicate 64 CHR ''a'')
              \<lparr>type' = Type_string, size' = 64, cast_type = []\<rparr>)"
proof -
  have s: "show_nat 64 = ''64''"
    by (simp add: show_nat.simps)
  have e: "STRING_SIZE (example_env 2) = 64" "err (new_analyser Map.empty) = []"
    by (simp_all add: example_env_def new_analyser_def)
  show ?thesis
    using string_literal_size_bound [of "example_env 2" "replicate 63 CHR ''a''"
        "new_analyser Map.empty" SizedType0]
      string_literal_size_bound [of "example_env 2" "replicate 64 CHR ''a''"
        "new_analyser Map.empty" SizedType0]
    by (simp add: e s)
qed


section \<open>Binary operators\<close>

lemma visit_expr_pass: "visit_expr ev st e = Inr (st', e') \<Longrightarrow> pass st' = pass st"
  by (drule frame_visit_expr(1)) (simp add: frame_def)

text \<open>
  Claim C7. When both operands of a binary operator are visited without a fault, the node
  is visited without a fault and its type becomes kind integer, size 8, no struct name,
  whatever the kinds of the operands. On a pass that is not the final one the state is the
  one the operands left: the rule writes no diagnostic. On the final pass the rule appends
  to the error stream, and changes nothing else: the type-mismatch diagnostic when the kinds
  of the operands differ; otherwise the diagnostic that the operator can not be used when
  the kind is not integer and the operator is neither equality nor inequality; otherwise
  nothing.
\<close>

theorem binop_integer_type_final_pass_errors:
  assumes l: "visit_expr ev st left = Inr (st1, left1)"
    and r: "visit_expr ev st1 right = Inr (st2, right1)"
  shows "\<exists>st3. visit_expr ev st (Binop left op right t)
                 = Inr (st3, Binop left1 op right1
                               \<lparr>type' = Type_integer, size' = 8, cast_type = []\<rparr>)
           \<and> (pass st \<noteq> num_passes ev \<longrightarrow> st3 = st2)
           \<and> (pass st = num_passes ev \<longrightarrow>
                st3 = st2\<lparr>err := err st2 @
                  (if type' (expr_type left1) \<noteq> type' (expr_type right1)
                   then ''Type mismatch for '' @ [CHR 0x27] @ opstr_binop ev op @ [CHR 0x27]
                        @ '': comparing '' @ [CHR 0x27] @ typestr (type' (expr_type left1))
                        @ [CHR 0x27] @ '' with '' @ [CHR 0x27]
                        @ typestr (type' (expr_type right1)) @ [CHR 0x27] @ [CHR 0x0A]
                   else if type' (expr_type left1) \<noteq> Type_integer \<and> op \<noteq> EQ \<and> op \<noteq> NE
                   then ''The '' @ opstr_binop ev op
                        @ '' operator can not be used on expressions of type ''
                        @ typestr (type' (expr_type left1)) @ [CHR 0x0A]
                   else [])\<rparr>)"
proof -
  from l r have "pass st2 = pass st"
    by (simp add: visit_expr_pass)
  then show ?thesis
    using l r
    by (simp add: Binop_rule_def is_final_pass_def put_err_def SizedType2_def sq_def endl_def)
qed

theorem binop_integer_type_final_pass_errors_witness:
  "visit_expr (example_env 2) ((new_analyser Map.empty)\<lparr>pass := 1\<rparr>)
       (Binop (Integer 1 SizedType0) (OtherToken 0) (String ''a'' SizedType0) SizedType0)
     = Inr ((new_analyser Map.empty)\<lparr>pass := 1\<rparr>,
            Binop (Integer 1 \<lparr>type' = Type_integer, size' = 8, cast_type = []\<rparr>) (OtherToken 0)
              (String ''a'' \<lparr>type' = Type_string, size' = 64, cast_type = []\<rparr>)
              \<lparr>type' = Type_integer, size' = 8, cast_type = []\<rparr>)
   \<and> visit_expr (example_env 2) ((new_analyser Map.empty)\<lparr>pass := 2\<rparr>)
       (Binop (Integer 1 SizedType0) (OtherToken 0) (String ''a'' SizedType0) SizedType0)
     = Inr ((new_analyser Map.empty)
              \<lparr>pass := 2,
               err := ''Type mismatch for '' @ [CHR 0x27] @ ''*'' @ [CHR 0x27]
                      @ '': comparing '' @ [CHR 0x27] @ ''integer'' @ [CHR 0x27] @ '' with ''
                      @ [CHR 0x27] @ ''string'' @ [CHR 0x27] @ [CHR 0x0A]\<rparr>,
            Binop (Integer 1 \<lparr>type' = Type_integer, size' = 8, cast_type = []\<rparr>) (OtherToken 0)
              (String ''a'' \<lparr>type' = Type_string, size' = 64, cast_type = []\<rparr>)
              \<lparr>type' = Type_integer, size' = 8, cast_type = []\<rparr>)"
proof -
  let ?ev = "example_env 2"
  have l: "visit_expr ?ev s (Integer 1 SizedType0)
      = Inr (s, Integer 1 \<lparr>type' = Type_integer, size' = 8, cast_type = []\<rparr>)" for s
    by (simp add: visit_Integer_def SizedType2_def)
  have r: "visit_expr ?ev s (String ''a'' SizedType0)
      = Inr (s, String ''a'' \<lparr>type' = Type_string, size' = 64, cast_type = []\<rparr>)" for s
    by (simp add: visit_String_def example_env_def SizedType2_def)
  have n: "num_passes ?ev = 2" "opstr_binop ?ev (OtherToken 0) = ''*''"
    "err (new_analyser Map.empty) = []"
    by (simp_all add: example_env_def new_analyser_def)
  show ?thesis
    using binop_integer_type_final_pass_errors
        [OF l r, of "(new_analyser Map.empty)\<lparr>pass := 1\<rparr>" "OtherToken 0" SizedType0]
      binop_integer_type_final_pass_errors
        [OF l r, of "(new_analyser Map.empty)\<lparr>pass := 2\<rparr>" "OtherToken 0" SizedType0]
    by (simp add: n)
qed

section \<open>Checking an argument of a call\<close>

text \<open>
  Claim C10. In \<^verbatim>\<open>check_arg\<close>, for an argument checked under the literal requirement
  that is not a literal or has not the required kind, the diagnostic that a literal is
  expected is appended to the error stream and the check fails, on every pass (the result
  does not depend on the pass number). For an argument checked without the literal
  requirement whose kind differs from the required one, the diagnostic that only the
  required kind is supported is appended to the error stream and the check fails on the
  final pass; on every earlier pass the state is unchanged and the check succeeds.
\<close>

theorem check_arg_literal_every_pass_type_final_pass:
  assumes "arg_num < length es"
  shows "(\<not> is_literal (es ! arg_num) \<or> type' (expr_type (es ! arg_num)) \<noteq> ty \<longrightarrow>
            check_arg ev st fn (Some es) ty arg_num True
              = Inr (st\<lparr>err := err st @ fn @ ''() expects a '' @ typestr ty @ '' literal (''
                                @ typestr (type' (expr_type (es ! arg_num))) @ '' provided)''
                                @ [CHR 0x0A]\<rparr>,
                     False))
       \<and> (type' (expr_type (es ! arg_num)) \<noteq> ty \<longrightarrow>
            check_arg ev st fn (Some es) ty arg_num False
              = (if pass st = num_passes ev
                 then Inr (st\<lparr>err := err st @ fn @ ''() only supports '' @ typestr ty
                                     @ '' arguments (''
                                     @ typestr (type' (expr_type (es ! arg_num)))
                                     @ '' provided)'' @ [CHR 0x0A]\<rparr>,
                           False)
                 else Inr (st, True)))"
  using assms
  by (simp add: check_arg_def arg_at_def is_final_pass_def put_err_def endl_def)

theorem check_arg_literal_every_pass_type_final_pass_witness:
  "check_arg (example_env 2) ((new_analyser Map.empty)\<lparr>pass := 1\<rparr>) ''reg''
       (Some [Integer 1 \<lparr>type' = Type_integer, size' = 8, cast_type = []\<rparr>]) Type_string 0 True
     = Inr ((new_analyser Map.empty)
              \<lparr>pass := 1,
               err := ''reg() expects a string literal (integer provided)'' @ [CHR 0x0A]\<rparr>,
            False)
   \<and> check_arg (example_env 2) ((new_analyser Map.empty)\<lparr>pass := 1\<rparr>) ''str''
       (Some [String ''a'' \<lparr>type' = Type_string, size' = 64, cast_type = []\<rparr>]) Type_integer 0 False
     = Inr ((new_analyser Map.empty)\<lparr>pass := 1\<rparr>, True)
   \<and> check_arg (example_env 2) ((new_analyser Map.empty)\<lparr>pass := 2\<rparr>) ''str''
       (Some [String ''a'' \<lparr>type' = Type_string, size' = 64, cast_type = []\<rparr>]) Type_integer 0 False
     = Inr ((new_analyser Map.empty)
              \<lparr>pass := 2,
               err := ''str() only supports integer arguments (string provided)''
                      @ [CHR 0x0A]\<rparr>,
            False)"
  using check_arg_literal_every_pass_type_final_pass
      [of 0 "[Integer 1 \<lparr>type' = Type_integer, size' = 8, cast_type = []\<rparr>]" Type_string
         "example_env 2" "(new_analyser Map.empty)\<lparr>pass := 1\<rparr>" "''reg''"]
    check_arg_literal_every_pass_type_final_pass
      [of 0 "[String ''a'' \<lparr>type' = Type_string, size' = 64, cast_type = []\<rparr>]" Type_integer
         "example_env 2" "(new_analyser Map.empty)\<lparr>pass := 1\<rparr>" "''str''"]
    check_arg_literal_every_pass_type_final_pass
      [of 0 "[String ''a'' \<lparr>type' = Type_string, size' = 64, cast_type = []\<rparr>]" Type_integer
         "example_env 2" "(new_analyser Map.empty)\<lparr>pass := 2\<rparr>" "''str''"]
  by (simp add: example_env_def new_analyser_def)

section \<open>The func builtin\<close>

lemma func_attach_points_append:
  "func_attach_points st t (aps @ bps) =
    (case func_attach_points st t aps of
       Inl f \<Rightarrow> Inl f
     | Inr (st1, t1) \<Rightarrow> func_attach_points st1 t1 bps)"
  by (induction aps arbitrary: st t) (auto split: sum.splits)

text \<open>
  Claim C3, as amended. The \<^verbatim>\<open>func\<close> builtin goes through the attach points of the
  current probe in order. For each attach point (here the last one, after any attach points
  that were gone through without a fault): the providers kprobe, kretprobe and tracepoint
  set the type to sym of size 8, and the providers uprobe, uretprobe, BEGIN and END set it
  to usym of size 8, both without adding a diagnostic; the provider profile appends to the
  error stream the diagnostic that func can not be used with profile probes, and the visit
  returns.
\<close>

theorem func_builtin_by_provider:
  assumes "probe st = Some (aps @ [ap])"
    and "func_attach_points st t aps = Inr (st1, t1)"
  shows "(provider ap = ''kprobe'' \<or> provider ap = ''kretprobe'' \<or> provider ap = ''tracepoint''
          \<longrightarrow> visit_expr ev st (Builtin ''func'' t)
                = Inr (st1, Builtin ''func'' \<lparr>type' = Type_sym, size' = 8, cast_type = []\<rparr>))
       \<and> (provider ap = ''uprobe'' \<or> provider ap = ''uretprobe''
            \<or> provider ap = ''BEGIN'' \<or> provider ap = ''END''
          \<longrightarrow> visit_expr ev st (Builtin ''func'' t)
                = Inr (st1, Builtin ''func'' \<lparr>type' = Type_usym, size' = 8, cast_type = []\<rparr>))
       \<and> (provider ap = ''profile''
          \<longrightarrow> (\<exists>t2. visit_expr ev st (Builtin ''func'' t)
                = Inr (st1\<lparr>err := err st1 @ ''The func builtin can not be used with ''
                                   @ [CHR 0x27] @ ''profile'' @ [CHR 0x27] @ '' probes''
                                   @ [CHR 0x0A]\<rparr>,
                       Builtin ''func'' t2)))"
  using assms
  by (auto simp: visit_Builtin_def func_attach_points_append probetype_def put_err_def
      SizedType2_def sq_def endl_def)

theorem func_builtin_by_provider_witness:
  "visit_expr (example_env 2)
      ((new_analyser Map.empty)
         \<lparr>probe := Some [attach ''profile'' ''hz'' [], attach ''kprobe'' [] ''f'']\<rparr>)
      (Builtin ''func'' SizedType0)
    = Inr ((new_analyser Map.empty)
             \<lparr>err := ''The func builtin can not be used with '' @ [CHR 0x27] @ ''profile''
                      @ [CHR 0x27] @ '' probes'' @ [CHR 0x0A],
              probe := Some [attach ''profile'' ''hz'' [], attach ''kprobe'' [] ''f'']\<rparr>,
           Builtin ''func'' \<lparr>type' = Type_sym, size' = 8, cast_type = []\<rparr>)
   \<and> visit_expr (example_env 2)
      ((new_analyser Map.empty)\<lparr>probe := Some [attach ''END'' [] []]\<rparr>)
      (Builtin ''func'' SizedType0)
    = Inr ((new_analyser Map.empty)\<lparr>probe := Some [attach ''END'' [] []]\<rparr>,
           Builtin ''func'' \<lparr>type' = Type_usym, size' = 8, cast_type = []\<rparr>)
   \<and> (\<exists>t2. visit_expr (example_env 2)
      ((new_analyser Map.empty)\<lparr>probe := Some [attach ''profile'' ''hz'' []]\<rparr>)
      (Builtin ''func'' SizedType0)
    = Inr ((new_analyser Map.empty)
             \<lparr>err := ''The func builtin can not be used with '' @ [CHR 0x27] @ ''profile''
                      @ [CHR 0x27] @ '' probes'' @ [CHR 0x0A],
              probe := Some [attach ''profile'' ''hz'' []]\<rparr>,
           Builtin ''func'' t2))"
proof -
  let ?ev = "example_env 2"
  let ?msg = "''The func builtin can not be used with '' @ [CHR 0x27] @ ''profile''
              @ [CHR 0x27] @ '' probes'' @ [CHR 0x0A]"
  let ?a = "(new_analyser Map.empty)
      \<lparr>probe := Some [attach ''profile'' ''hz'' [], attach ''kprobe'' [] ''f'']\<rparr>"
  let ?b = "(new_analyser Map.empty)\<lparr>probe := Some [attach ''END'' [] []]\<rparr>"
  let ?c = "(new_analyser Map.empty)\<lparr>probe := Some [attach ''profile'' ''hz'' []]\<rparr>"
  have pa: "probe ?a = Some ([attach ''profile'' ''hz'' []] @ [attach ''kprobe'' [] ''f''])"
    and pb: "probe ?b = Some ([] @ [attach ''END'' [] []])"
    and pc: "probe ?c = Some ([] @ [attach ''profile'' ''hz'' []])"
    by simp_all
  have fa: "func_attach_points ?a SizedType0 [attach ''profile'' ''hz'' []]
      = Inr (?a\<lparr>err := ?msg\<rparr>, SizedType0)"
    by (simp add: attach_def probetype_def put_err_def sq_def endl_def new_analyser_def)
  have fe: "func_attach_points s SizedType0 [] = Inr (s, SizedType0)" for s
    by simp
  have p: "provider (attach ''kprobe'' [] ''f'') = ''kprobe''"
    "provider (attach ''END'' [] []) = ''END''"
    "provider (attach ''profile'' ''hz'' []) = ''profile''"
    by (simp_all add: attach_def)
  from func_builtin_by_provider [OF pa fa, of ?ev] p(1)
  have "visit_expr ?ev ?a (Builtin ''func'' SizedType0)
      = Inr (?a\<lparr>err := ?msg\<rparr>,
             Builtin ''func'' \<lparr>type' = Type_sym, size' = 8, cast_type = []\<rparr>)"
    by (simp del: visit_expr.simps)
  moreover from func_builtin_by_provider [OF pb fe, of ?ev] p(2)
  have "visit_expr ?ev ?b (Builtin ''func'' SizedType0)
      = Inr (?b, Builtin ''func'' \<lparr>type' = Type_usym, size' = 8, cast_type = []\<rparr>)"
    by (simp del: visit_expr.simps)
  moreover from func_builtin_by_provider [OF pc fe, of ?ev] p(3)
  have "\<exists>t2. visit_expr ?ev ?c (Builtin ''func'' SizedType0)
      = Inr (?c\<lparr>err := ?msg\<rparr>, Builtin ''func'' t2)"
    by (simp add: new_analyser_def del: visit_expr.simps)
  ultimately show ?thesis
    by (simp add: new_analyser_def del: visit_expr.simps)
qed

text \<open>
  The claim as it was stated fails: with a BEGIN attach point the builtin gets the type
  usym of size 8 and no diagnostic.
\<close>

theorem func_builtin_begin_counterexample:
  "visit_expr (example_env 2)
      ((new_analyser Map.empty)\<lparr>probe := Some [attach ''BEGIN'' [] []]\<rparr>)
      (Builtin ''func'' SizedType0)
    = Inr ((new_analyser Map.empty)\<lparr>probe := Some [attach ''BEGIN'' [] []]\<rparr>,
           Builtin ''func'' \<lparr>type' = Type_usym, size' = 8, cast_type = []\<rparr>)
   \<and> err (new_analyser Map.empty) = []"
  by (simp add: visit_Builtin_def probetype_def attach_def SizedType2_def new_analyser_def)

section \<open>Map accesses and key signatures\<close>

text \<open>The definitions that running the analyser on a concrete program unfolds.\<close>

lemmas run_defs =
  analyse_def analyse_loop.simps new_analyser_def example_env_def attach_def
  visit_AttachPoint_def when_err_def put_err_def Map_rule_def MapKey_ne_def key_of_def
  AssignMap_rule_def
  AssignVar_rule_def visit_Variable_def is_final_pass_def SizedType0_def SizedType2_def
  SizedType3_def visit_Integer_def visit_String_def visit_Builtin_def val_at_def
  visit_Predicate_def Let_def endl_def tab_def sq_def star_def probetype_def





section \<open>Assignments and the recorded value types\<close>

lemma AssignMap_rule_kind_mismatch:
  assumes "map_val st m = Some v" "type' v \<noteq> Type_none" "type' et \<noteq> type' v"
  shows "\<exists>v' d. map_val (AssignMap_rule ev st m et) m = Some v' \<and> type' v' = type' v
    \<and> err (AssignMap_rule ev st m et)
        = err st @ mismatch_text ''map'' m (typestr (type' et)) (typestr (type' v)) @ d"
  using assms
  by (auto simp: AssignMap_rule_def Let_def put_err_def val_at_def mismatch_text_def)

lemma AssignMap_rule_placeholder:
  assumes "map_val st m = Some v" "type' v = Type_none" "pass st \<noteq> num_passes ev"
  shows "map_val (AssignMap_rule ev st m et) m = Some et
    \<and> err (AssignMap_rule ev st m et) = err st"
  using assms
  by (auto simp: AssignMap_rule_def Let_def put_err_def val_at_def is_final_pass_def)

lemma AssignMap_rule_cast_name:
  assumes "map_val st m = Some v" "type' et = Type_cast" "cast_type v \<noteq> []"
    "cast_type v \<noteq> cast_type et" "type' v \<noteq> Type_none \<or> pass st = num_passes ev"
  shows "\<exists>d. map_val (AssignMap_rule ev st m et) m = Some v
    \<and> err (AssignMap_rule ev st m et)
        = err st @ d @ mismatch_text ''map'' m (cast_type et) (cast_type v)"
  using assms
  by (auto simp: AssignMap_rule_def Let_def put_err_def val_at_def is_final_pass_def
      mismatch_text_def)

lemma AssignVar_rule_kind_mismatch:
  assumes "variable_val st x = Some v" "type' v \<noteq> Type_none" "type' et \<noteq> type' v"
  shows "\<exists>v' d. variable_val (fst (AssignVar_rule ev st x vt et)) x = Some v' \<and> type' v' = type' v
    \<and> err (fst (AssignVar_rule ev st x vt et))
        = err st @ mismatch_text ''variable'' x (typestr (type' et)) (typestr (type' v)) @ d"
  using assms
  by (auto simp: AssignVar_rule_def Let_def put_err_def val_at_def mismatch_text_def)

lemma AssignVar_rule_placeholder:
  assumes "variable_val st x = Some v" "type' v = Type_none" "pass st \<noteq> num_passes ev"
  shows "variable_val (fst (AssignVar_rule ev st x vt et)) x = Some et
    \<and> err (fst (AssignVar_rule ev st x vt et)) = err st"
  using assms
  by (auto simp: AssignVar_rule_def Let_def put_err_def val_at_def is_final_pass_def)

lemma AssignVar_rule_cast_name:
  assumes "variable_val st x = Some v" "type' et = Type_cast" "cast_type v \<noteq> []"
    "cast_type v \<noteq> cast_type et" "type' v \<noteq> Type_none \<or> pass st = num_passes ev"
  shows "\<exists>d. variable_val (fst (AssignVar_rule ev st x vt et)) x = Some v
    \<and> err (fst (AssignVar_rule ev st x vt et))
        = err st @ d @ mismatch_text ''variable'' x (cast_type et) (cast_type v)"
  using assms
  by (auto simp: AssignVar_rule_def Let_def put_err_def val_at_def is_final_pass_def
      mismatch_text_def)

lemma frame_after_map_target:
  assumes "visit_vargs ev st vargs = Inr (st1, vargs1)"
    and "Map_rule ev st1 m vargs1 = (st2, mt2)"
    and "visit_expr ev st2 e = Inr (st3, e1)"
  shows "frame st st3"
  using assms
  by (blast intro: frame_trans frame_visit_expr frame_Map_rule')

text \<open>
  Claim C5. Take an assignment to a map, or to a variable, whose name has a recorded value
  type, and whose target and value are visited without a fault. (Visiting them changes
  neither the recorded types nor the pass number.) Then the statement is visited without a
  fault, and after the diagnostics of its children:
  \<^item> if the recorded kind is not none and the kind of the value differs from it, the
    type-mismatch diagnostic naming both kinds is added and the recorded kind stays;
  \<^item> if the recorded kind is none and the pass is not the final one, the recorded type
    becomes the type of the value and nothing is added;
  \<^item> if the value is a cast, the recorded struct name is not empty and differs from the
    value's, and the recorded kind is not none (or the pass is the final one, where a
    placeholder is not overwritten), the type-mismatch diagnostic naming both struct names
    is added and the recorded type stays.
\<close>

theorem value_type_consistency:
  assumes mv: "visit_vargs ev st vargs = Inr (st1, vargs1)"
    and mr: "Map_rule ev st1 m vargs1 = (st2, mt2)"
    and me: "visit_expr ev st2 e = Inr (st3, e1)"
    and mval: "map_val st m = Some v"
    and ve: "visit_expr ev sv e' = Inr (sv1, e1')"
    and vval: "variable_val sv x = Some w"
  shows
    "(\<exists>st4. visit_stmt ev st (AssignMapStatement m vargs mt e)
               = Inr (st4, AssignMapStatement m vargs1 mt2 e1)
        \<and> (type' v \<noteq> Type_none \<and> type' (expr_type e1) \<noteq> type' v \<longrightarrow>
             (\<exists>v' d. map_val st4 m = Some v' \<and> type' v' = type' v
                \<and> err st4 = err st3
                     @ mismatch_text ''map'' m (typestr (type' (expr_type e1))) (typestr (type' v))
                     @ d))
        \<and> (type' v = Type_none \<and> pass st \<noteq> num_passes ev \<longrightarrow>
             map_val st4 m = Some (expr_type e1) \<and> err st4 = err st3)
        \<and> (type' (expr_type e1) = Type_cast \<and> cast_type v \<noteq> []
             \<and> cast_type v \<noteq> cast_type (expr_type e1)
             \<and> (type' v \<noteq> Type_none \<or> pass st = num_passes ev) \<longrightarrow>
             (\<exists>d. map_val st4 m = Some v
                \<and> err st4 = err st3 @ d
                     @ mismatch_text ''map'' m (cast_type (expr_type e1)) (cast_type v))))
     \<and> (\<exists>sv2 vt2. visit_stmt ev sv (AssignVarStatement x vt e')
               = Inr (sv2, AssignVarStatement x vt2 e1')
        \<and> (type' w \<noteq> Type_none \<and> type' (expr_type e1') \<noteq> type' w \<longrightarrow>
             (\<exists>w' d. variable_val sv2 x = Some w' \<and> type' w' = type' w
                \<and> err sv2 = err sv1
                     @ mismatch_text ''variable'' x (typestr (type' (expr_type e1')))
                         (typestr (type' w))
                     @ d))
        \<and> (type' w = Type_none \<and> pass sv \<noteq> num_passes ev \<longrightarrow>
             variable_val sv2 x = Some (expr_type e1') \<and> err sv2 = err sv1)
        \<and> (type' (expr_type e1') = Type_cast \<and> cast_type w \<noteq> []
             \<and> cast_type w \<noteq> cast_type (expr_type e1')
             \<and> (type' w \<noteq> Type_none \<or> pass sv = num_passes ev) \<longrightarrow>
             (\<exists>d. variable_val sv2 x = Some w
                \<and> err sv2 = err sv1 @ d
                     @ mismatch_text ''variable'' x (cast_type (expr_type e1')) (cast_type w))))"
proof (rule conjI)
  from frame_after_map_target [OF mv mr me] mval
  have f: "map_val st3 m = Some v" "pass st3 = pass st"
    by (simp_all add: frame_def)
  let ?st4 = "AssignMap_rule ev st3 m (expr_type e1)"
  have "visit_stmt ev st (AssignMapStatement m vargs mt e)
      = Inr (?st4, AssignMapStatement m vargs1 mt2 e1)"
    using mv mr me by simp
  moreover have "type' v \<noteq> Type_none \<and> type' (expr_type e1) \<noteq> type' v \<longrightarrow>
      (\<exists>v' d. map_val ?st4 m = Some v' \<and> type' v' = type' v
         \<and> err ?st4 = err st3
              @ mismatch_text ''map'' m (typestr (type' (expr_type e1))) (typestr (type' v)) @ d)"
    using AssignMap_rule_kind_mismatch [OF f(1)] by blast
  moreover have "type' v = Type_none \<and> pass st \<noteq> num_passes ev \<longrightarrow>
      map_val ?st4 m = Some (expr_type e1) \<and> err ?st4 = err st3"
    using AssignMap_rule_placeholder [OF f(1)] f(2) by simp
  moreover have "type' (expr_type e1) = Type_cast \<and> cast_type v \<noteq> []
      \<and> cast_type v \<noteq> cast_type (expr_type e1)
      \<and> (type' v \<noteq> Type_none \<or> pass st = num_passes ev) \<longrightarrow>
      (\<exists>d. map_val ?st4 m = Some v
         \<and> err ?st4 = err st3 @ d
              @ mismatch_text ''map'' m (cast_type (expr_type e1)) (cast_type v))"
    using AssignMap_rule_cast_name [OF f(1), of "expr_type e1" ev] f(2) by simp
  ultimately show "\<exists>st4. visit_stmt ev st (AssignMapStatement m vargs mt e)
               = Inr (st4, AssignMapStatement m vargs1 mt2 e1)
        \<and> (type' v \<noteq> Type_none \<and> type' (expr_type e1) \<noteq> type' v \<longrightarrow>
             (\<exists>v' d. map_val st4 m = Some v' \<and> type' v' = type' v
                \<and> err st4 = err st3
                     @ mismatch_text ''map'' m (typestr (type' (expr_type e1))) (typestr (type' v))
                     @ d))
        \<and> (type' v = Type_none \<and> pass st \<noteq> num_passes ev \<longrightarrow>
             map_val st4 m = Some (expr_type e1) \<and> err st4 = err st3)
        \<and> (type' (expr_type e1) = Type_cast \<and> cast_type v \<noteq> []
             \<and> cast_type v \<noteq> cast_type (expr_type e1)
             \<and> (type' v \<noteq> Type_none \<or> pass st = num_passes ev) \<longrightarrow>
             (\<exists>d. map_val st4 m = Some v
                \<and> err st4 = err st3 @ d
                     @ mismatch_text ''map'' m (cast_type (expr_type e1)) (cast_type v)))"
    by blast
next
  from frame_visit_expr(1) [OF ve] vval
  have f: "variable_val sv1 x = Some w" "pass sv1 = pass sv"
    by (simp_all add: frame_def)
  let ?r = "AssignVar_rule ev sv1 x vt (expr_type e1')"
  have "visit_stmt ev sv (AssignVarStatement x vt e')
      = Inr (fst ?r, AssignVarStatement x (snd ?r) e1')"
    using ve by (simp add: split_beta)
  moreover have "type' w \<noteq> Type_none \<and> type' (expr_type e1') \<noteq> type' w \<longrightarrow>
      (\<exists>w' d. variable_val (fst ?r) x = Some w' \<and> type' w' = type' w
         \<and> err (fst ?r) = err sv1
              @ mismatch_text ''variable'' x (typestr (type' (expr_type e1'))) (typestr (type' w))
              @ d)"
    using AssignVar_rule_kind_mismatch [OF f(1)] by blast
  moreover have "type' w = Type_none \<and> pass sv \<noteq> num_passes ev \<longrightarrow>
      variable_val (fst ?r) x = Some (expr_type e1') \<and> err (fst ?r) = err sv1"
    using AssignVar_rule_placeholder [OF f(1)] f(2) by simp
  moreover have "type' (expr_type e1') = Type_cast \<and> cast_type w \<noteq> []
      \<and> cast_type w \<noteq> cast_type (expr_type e1')
      \<and> (type' w \<noteq> Type_none \<or> pass sv = num_passes ev) \<longrightarrow>
      (\<exists>d. variable_val (fst ?r) x = Some w
         \<and> err (fst ?r) = err sv1 @ d
              @ mismatch_text ''variable'' x (cast_type (expr_type e1')) (cast_type w))"
    using AssignVar_rule_cast_name [OF f(1), of "expr_type e1'" ev] f(2) by simp
  ultimately show "\<exists>sv2 vt2. visit_stmt ev sv (AssignVarStatement x vt e')
               = Inr (sv2, AssignVarStatement x vt2 e1')
        \<and> (type' w \<noteq> Type_none \<and> type' (expr_type e1') \<noteq> type' w \<longrightarrow>
             (\<exists>w' d. variable_val sv2 x = Some w' \<and> type' w' = type' w
                \<and> err sv2 = err sv1
                     @ mismatch_text ''variable'' x (typestr (type' (expr_type e1')))
                         (typestr (type' w))
                     @ d))
        \<and> (type' w = Type_none \<and> pass sv \<noteq> num_passes ev \<longrightarrow>
             variable_val sv2 x = Some (expr_type e1') \<and> err sv2 = err sv1)
        \<and> (type' (expr_type e1') = Type_cast \<and> cast_type w \<noteq> []
             \<and> cast_type w \<noteq> cast_type (expr_type e1')
             \<and> (type' w \<noteq> Type_none \<or> pass sv = num_passes ev) \<longrightarrow>
             (\<exists>d. variable_val sv2 x = Some w
                \<and> err sv2 = err sv1 @ d
                     @ mismatch_text ''variable'' x (cast_type (expr_type e1')) (cast_type w)))"
    by blast
qed

theorem value_type_consistency_witness:
  "(\<exists>st4 v' d.
      visit_stmt (example_env 2)
        ((new_analyser Map.empty)\<lparr>pass := 1, map_val := [''x'' \<mapsto> SizedType2 Type_integer 8]\<rparr>)
        (AssignMapStatement ''x'' None SizedType0 (String ''s'' SizedType0))
        = Inr (st4, AssignMapStatement ''x'' None (SizedType2 Type_integer 8)
                      (String ''s'' (SizedType2 Type_string 64)))
      \<and> map_val st4 ''x'' = Some v' \<and> type' v' = Type_integer
      \<and> err st4 = mismatch_text ''map'' ''x'' ''string'' ''integer'' @ d)
   \<and> (\<exists>sv2 vt2.
      visit_stmt (example_env 2)
        ((new_analyser Map.empty)\<lparr>pass := 1, variable_val := [''x'' \<mapsto> SizedType0]\<rparr>)
        (AssignVarStatement ''x'' SizedType0 (Integer 1 SizedType0))
        = Inr (sv2, AssignVarStatement ''x'' vt2 (Integer 1 (SizedType2 Type_integer 8)))
      \<and> variable_val sv2 ''x'' = Some (SizedType2 Type_integer 8) \<and> err sv2 = [])"
proof -
  let ?ev = "example_env 2"
  let ?S = "(new_analyser Map.empty)\<lparr>pass := 1, map_val := [''x'' \<mapsto> SizedType2 Type_integer 8]\<rparr>"
  let ?S2 = "?S\<lparr>map_key := [''x'' \<mapsto> []]\<rparr>"
  let ?SV = "(new_analyser Map.empty)\<lparr>pass := 1, variable_val := [''x'' \<mapsto> SizedType0]\<rparr>"
  have mv: "visit_vargs ?ev ?S None = Inr (?S, None)"
    by simp
  have mr: "Map_rule ?ev ?S ''x'' None = (?S2, SizedType2 Type_integer 8)"
    by (simp add: Map_rule_def MapKey_ne_def key_of_def new_analyser_def)
  have me: "visit_expr ?ev ?S2 (String ''s'' SizedType0)
      = Inr (?S2, String ''s'' (SizedType2 Type_string 64))"
    by (simp add: visit_String_def example_env_def)
  have mval: "map_val ?S ''x'' = Some (SizedType2 Type_integer 8)"
    by simp
  have ve: "visit_expr ?ev ?SV (Integer 1 SizedType0)
      = Inr (?SV, Integer 1 (SizedType2 Type_integer 8))"
    by (simp add: visit_Integer_def)
  have vval: "variable_val ?SV ''x'' = Some SizedType0"
    by simp
  have c: "type' (SizedType2 Type_integer 8) = Type_integer"
    "type' (SizedType2 Type_string 64) = Type_string" "type' SizedType0 = Type_none"
    "num_passes ?ev = 2" "pass ?S = 1" "pass ?SV = 1" "err ?S2 = []" "err ?SV = []"
    by (simp_all add: SizedType2_def SizedType0_def example_env_def new_analyser_def)
  note t = value_type_consistency [OF mv mr me mval ve vval, of SizedType0 SizedType0]
  from t obtain st4 v' d where
    "visit_stmt ?ev ?S (AssignMapStatement ''x'' None SizedType0 (String ''s'' SizedType0))
        = Inr (st4, AssignMapStatement ''x'' None (SizedType2 Type_integer 8)
                      (String ''s'' (SizedType2 Type_string 64)))"
    "map_val st4 ''x'' = Some v'" "type' v' = Type_integer"
    "err st4 = mismatch_text ''map'' ''x'' ''string'' ''integer'' @ d"
    by (auto simp: c simp del: visit_stmt.simps)
  moreover from t obtain sv2 vt2 where
    "visit_stmt ?ev ?SV (AssignVarStatement ''x'' SizedType0 (Integer 1 SizedType0))
        = Inr (sv2, AssignVarStatement ''x'' vt2 (Integer 1 (SizedType2 Type_integer 8)))"
    "variable_val sv2 ''x'' = Some (SizedType2 Type_integer 8)" "err sv2 = []"
    by (auto simp: c simp del: visit_stmt.simps)
  ultimately show ?thesis
    by blast
qed

section \<open>Error branches that assign no type\<close>

text \<open>
  Claim C6. The claim says that every rule still assigns a type to its node after it has
  reported a diagnostic. The code does not: the branch of \<^verbatim>\<open>visit(Unop&)\<close> for the
  dereference of a struct that is not a pointer writes the diagnostic and leaves
  \<^verbatim>\<open>unop.type\<close> alone, and the three error branches of \<^verbatim>\<open>visit(FieldAccess&)\<close>
  return before \<^verbatim>\<open>acc.type\<close> is assigned. With two passes, the program
  \<^verbatim>\<open>kprobe:f { *@x; @x = (foo)arg0 }\<close> fails on pass 2 with the dereference diagnostic,
  and the dereference node still has the type integer of size 8 that pass 1 gave it, when
  \<^verbatim>\<open>@x\<close> was unknown. For every type \<open>t\<close> the node had, the error branches return
  \<open>t\<close>.
\<close>

theorem error_branches_leave_type_unassigned:
  "map_sum id fst (analyse (example_env 2) (new_analyser foo_registry) deref_program) = Inr 2
   \<and> map_sum id (out \<circ> fst \<circ> snd)
        (analyse (example_env 2) (new_analyser foo_registry) deref_program)
      = Inr (''Can not dereference struct/union of type '' @ sq @ ''foo'' @ sq
             @ ''. It is not a pointer.'' @ endl)
   \<and> map_sum id (hd \<circ> stmts \<circ> hd \<circ> probes \<circ> snd \<circ> snd)
        (analyse (example_env 2) (new_analyser foo_registry) deref_program)
      = Inr (ExprStatement
               (Unop MUL (Map ''x'' None (SizedType3 Type_cast 16 ''foo''))
                  (SizedType2 Type_integer 8)))
   \<and> Unop_rule ev st MUL (SizedType3 Type_cast 16 ''foo'') t
      = Inr (put_err (''Can not dereference struct/union of type '' @ sq @ ''foo'' @ sq
                      @ ''. It is not a pointer.'' @ endl) st, t)
   \<and> FieldAccess_rule ev st field (SizedType2 Type_integer 8) t
      = Inr (when_err (is_final_pass ev st)
               (''Can not access field '' @ sq @ field @ sq @ '' on expression of type '' @ sq
                @ ''integer'' @ sq @ endl) st, t)
   \<and> FieldAccess_rule ev st field (SizedType3 Type_cast 8 ''foo*'') t
      = Inr (put_err (''Can not access field '' @ sq @ field @ sq @ '' on type '' @ sq
               @ ''foo*'' @ sq @ ''. Try dereferencing it first, or using '' @ sq @ ''->''
               @ sq @ endl) st, t)
   \<and> FieldAccess_rule ev (new_analyser foo_registry) field (SizedType3 Type_cast 16 ''foo'') t
      = Inr (put_err (''Struct/union of type '' @ sq @ ''foo'' @ sq
               @ '' does not contain a field named '' @ sq @ field @ sq @ endl)
               (new_analyser foo_registry), t)"
proof -
  have "Unop_rule ev st MUL (SizedType3 Type_cast 16 ''foo'') t
      = Inr (put_err (''Can not dereference struct/union of type '' @ sq @ ''foo'' @ sq
                      @ ''. It is not a pointer.'' @ endl) st, t)"
    by (simp add: Unop_rule_def SizedType3_def star_def)
  moreover have "FieldAccess_rule ev st field (SizedType2 Type_integer 8) t
      = Inr (when_err (is_final_pass ev st)
               (''Can not access field '' @ sq @ field @ sq @ '' on expression of type '' @ sq
                @ ''integer'' @ sq @ endl) st, t)"
    by (simp add: FieldAccess_rule_def SizedType2_def when_err_def)
  moreover have "FieldAccess_rule ev st field (SizedType3 Type_cast 8 ''foo*'') t
      = Inr (put_err (''Can not access field '' @ sq @ field @ sq @ '' on type '' @ sq
               @ ''foo*'' @ sq @ ''. Try dereferencing it first, or using '' @ sq @ ''->''
               @ sq @ endl) st, t)"
    by (simp add: FieldAccess_rule_def SizedType3_def star_def)
  moreover have "FieldAccess_rule ev (new_analyser foo_registry) field
        (SizedType3 Type_cast 16 ''foo'') t
      = Inr (put_err (''Struct/union of type '' @ sq @ ''foo'' @ sq
               @ '' does not contain a field named '' @ sq @ field @ sq @ endl)
               (new_analyser foo_registry), t)"
    by (simp add: FieldAccess_rule_def SizedType3_def star_def structs_at_def new_analyser_def
        foo_registry_def)
  moreover have "map_sum id fst (analyse (example_env 2) (new_analyser foo_registry) deref_program) = Inr 2
   \<and> map_sum id (out \<circ> fst \<circ> snd)
        (analyse (example_env 2) (new_analyser foo_registry) deref_program)
      = Inr (''Can not dereference struct/union of type '' @ sq @ ''foo'' @ sq
             @ ''. It is not a pointer.'' @ endl)
   \<and> map_sum id (hd \<circ> stmts \<circ> hd \<circ> probes \<circ> snd \<circ> snd)
        (analyse (example_env 2) (new_analyser foo_registry) deref_program)
      = Inr (ExprStatement
               (Unop MUL (Map ''x'' None (SizedType3 Type_cast 16 ''foo''))
                  (SizedType2 Type_integer 8)))"
    by (simp add: deref_program_def foo_registry_def run_defs Unop_rule_def Cast_rule_def
        structs_at_def)
  ultimately show ?thesis
    by blast
qed

section \<open>Two runs with two passes\<close>

lemma run_forward_variable:
  assumes "num_passes ev = 2" "fn \<noteq> []"
  shows "\<exists>st'. analyse ev (new_analyser reg) (forward_variable_program incs fn x n t0 t1 t2)
      = Inr (1, st',
             forward_variable_program incs fn x n (SizedType2 Type_none 0)
               (SizedType2 Type_integer 8) (SizedType2 Type_integer 8))
    \<and> out st' = ''Undefined variable: '' @ x @ endl"
  using assms
  by (simp add: forward_variable_program_def analyse_def analyse_loop.simps new_analyser_def
      attach_def visit_AttachPoint_def when_err_def put_err_def visit_Variable_def
      AssignVar_rule_def is_final_pass_def visit_Integer_def SizedType2_def Let_def val_at_def)

lemma run_forward_map:
  assumes "num_passes ev = 2" "fn \<noteq> []"
  shows "\<exists>st'. analyse ev (new_analyser reg) (forward_map_program incs fn m n t0 t1 t2)
      = Inr (0, st',
             forward_map_program incs fn m n (SizedType2 Type_integer 8)
               (SizedType2 Type_integer 8) (SizedType2 Type_integer 8))
    \<and> out st' = [] \<and> err st' = [] \<and> map_val st' m = Some (SizedType2 Type_integer 8)"
  using assms
  by (simp add: forward_map_program_def analyse_def analyse_loop.simps new_analyser_def
      attach_def visit_AttachPoint_def when_err_def put_err_def Map_rule_def MapKey_ne_def
      key_of_def AssignMap_rule_def is_final_pass_def visit_Integer_def SizedType2_def Let_def val_at_def)

section \<open>What a walk leaves alone\<close>

lemma grows_refl [simp]: "grows st st"
  by (simp add: grows_def)

lemma grows_trans: "grows a b \<Longrightarrow> grows b c \<Longrightarrow> grows a c"
  by (auto simp: grows_def)

lemma frame_grows: "frame st st' \<Longrightarrow> grows st st'"
  by (simp add: frame_def grows_def)

lemma grows_put_err [simp]: "grows st (put_err s st)"
  by (simp add: grows_def put_err_def)

lemma grows_when_err [simp]: "grows st (when_err c s st)"
  by (simp add: when_err_def)

lemma dup_begin_grows:
  assumes "dup_begin a b" "grows b c"
  shows "dup_begin a c"
proof -
  from assms(1) obtain x y where "err b = err a @ x @ begin_text @ y"
    by (auto simp: dup_begin_def)
  moreover from assms(2) obtain z where "err c = err b @ z"
    by (auto simp: grows_def prefix_def)
  ultimately have "err c = err a @ x @ begin_text @ (y @ z)"
    by simp
  then show ?thesis
    unfolding dup_begin_def by blast
qed

lemma grows_dup_begin:
  assumes "grows a b" "dup_begin b c"
  shows "dup_begin a c"
proof -
  from assms(2) obtain x y where "err c = err b @ x @ begin_text @ y"
    by (auto simp: dup_begin_def)
  moreover from assms(1) obtain z where "err b = err a @ z"
    by (auto simp: grows_def prefix_def)
  ultimately have "err c = err a @ (z @ x) @ begin_text @ y"
    by simp
  then show ?thesis
    unfolding dup_begin_def by blast
qed

lemma grows_progress: "grows st st' \<Longrightarrow> begin_progress 0 st st'"
  by (auto simp: begin_progress_def grows_def)

lemma begin_progress_grows: "begin_progress c st st' \<Longrightarrow> grows st st'"
  by (simp add: begin_progress_def)

lemma begin_progress_trans:
  assumes "begin_progress c1 st st1" "begin_progress c2 st1 st2"
  shows "begin_progress (c1 + c2) st st2"
proof -
  from assms have g: "grows st st1" "grows st1 st2"
    by (simp_all add: begin_progress_def)
  then have g2: "grows st st2"
    by (rule grows_trans)
  have h: "has_begin_probe st2" if "1 \<le> (if has_begin_probe st then 1 else 0) + (c1 + c2)"
  proof (cases "1 \<le> (if has_begin_probe st then 1 else 0) + c1")
    case True
    with assms(1) have "has_begin_probe st1"
      by (auto simp: begin_progress_def)
    with g(2) show ?thesis
      by (simp add: grows_def)
  next
    case False
    with that have "1 \<le> c2"
      by (simp split: if_splits)
    with assms(2) show ?thesis
      by (auto simp: begin_progress_def)
  qed
  have d: "dup_begin st st2" if t: "2 \<le> (if has_begin_probe st then 1 else 0) + (c1 + c2)"
  proof (cases "2 \<le> (if has_begin_probe st then 1 else 0) + c1")
    case True
    with assms(1) have "dup_begin st st1"
      by (auto simp: begin_progress_def)
    with g(2) show ?thesis
      by (blast intro: dup_begin_grows)
  next
    case False
    have "2 \<le> (if has_begin_probe st1 then 1 else 0) + c2"
    proof (cases "1 \<le> (if has_begin_probe st then 1 else 0) + c1")
      case True
      with assms(1) have "has_begin_probe st1"
        by (auto simp: begin_progress_def)
      with False t show ?thesis
        by (simp split: if_splits)
    next
      case False
      with t show ?thesis
        by (simp split: if_splits)
    qed
    with assms(2) have "dup_begin st1 st2"
      by (auto simp: begin_progress_def)
    with g(1) show ?thesis
      by (blast intro: grows_dup_begin)
  qed
  from g2 h d show ?thesis
    unfolding begin_progress_def by blast
qed

lemma when_err_True: "when_err True s st = put_err s st"
  by (simp add: when_err_def)

lemma err_put_err: "err (put_err s st) = err st @ s"
  by (simp add: put_err_def)

lemma grows_visit_AttachPoint: "grows st (visit_AttachPoint ev st ap)"
  by (auto simp: visit_AttachPoint_def Let_def grows_def when_err_def put_err_def)

lemma begin_progress_AttachPoint:
  assumes "pass st = num_passes ev"
  shows "begin_progress (if provider ap = ''BEGIN'' then 1 else 0) st (visit_AttachPoint ev st ap)"
proof (cases "provider ap = ''BEGIN''")
  case False
  with grows_progress [OF grows_visit_AttachPoint, of st ev ap] show ?thesis
    by simp
next
  case True
  let ?s1 = "when_err (target ap \<noteq> [] \<or> func ap \<noteq> [])
                    (''BEGIN/END probes should not have a target'' @ endl) st"
  from True assms have v: "visit_AttachPoint ev st ap
      = (when_err (has_begin_probe ?s1) begin_text ?s1)\<lparr>has_begin_probe := True\<rparr>"
    by (simp add: visit_AttachPoint_def Let_def is_final_pass_def when_err_def put_err_def
        begin_text_def)
  have "dup_begin st (visit_AttachPoint ev st ap)" if "has_begin_probe st"
  proof -
    have "\<exists>x. err ?s1 = err st @ x"
      by (cases "target ap \<noteq> [] \<or> func ap \<noteq> []") (simp_all add: when_err_def put_err_def)
    then obtain x where "err ?s1 = err st @ x"
      by blast
    moreover have "has_begin_probe ?s1 = has_begin_probe st"
      by (simp add: when_err_def put_err_def)
    ultimately have "err (visit_AttachPoint ev st ap) = err st @ x @ begin_text @ []"
      using that by (simp add: v when_err_True err_put_err)
    then show ?thesis
      unfolding dup_begin_def by blast
  qed
  with True grows_visit_AttachPoint [of st ev ap] show ?thesis
    by (auto simp: begin_progress_def v)
qed

lemma grows_AssignMap_rule: "grows st (AssignMap_rule ev st m et)"
  by (auto simp: AssignMap_rule_def Let_def grows_def put_err_def split: option.splits)

lemma grows_AssignVar_rule: "grows st (fst (AssignVar_rule ev st x vt et))"
  by (auto simp: AssignVar_rule_def Let_def grows_def put_err_def split: option.splits)

lemma grows_visit_stmt: "visit_stmt ev st s = Inr (st', s') \<Longrightarrow> grows st st'"
proof (cases s)
  case (ExprStatement e)
  assume "visit_stmt ev st s = Inr (st', s')"
  with ExprStatement show ?thesis
    by (auto split: sum.splits dest!: frame_visit_expr(1) frame_grows)
next
  case (AssignMapStatement m vargs mt e)
  assume "visit_stmt ev st s = Inr (st', s')"
  with AssignMapStatement obtain st1 vargs1 st2 mt2 st3 e1 where
    a: "visit_vargs ev st vargs = Inr (st1, vargs1)" "Map_rule ev st1 m vargs1 = (st2, mt2)"
      "visit_expr ev st2 e = Inr (st3, e1)" "st' = AssignMap_rule ev st3 m (expr_type e1)"
    by (auto split: sum.splits prod.splits)
  from frame_after_map_target [OF a(1-3)] have "grows st st3"
    by (rule frame_grows)
  with a(4) show ?thesis
    by (blast intro: grows_trans grows_AssignMap_rule)
next
  case (AssignVarStatement x vt e)
  assume "visit_stmt ev st s = Inr (st', s')"
  with AssignVarStatement obtain st1 e1 where
    a: "visit_expr ev st e = Inr (st1, e1)" "st' = fst (AssignVar_rule ev st1 x vt (expr_type e1))"
    by (auto split: sum.splits prod.splits)
  from frame_visit_expr(1) [OF a(1)] have "grows st st1"
    by (rule frame_grows)
  with a(2) show ?thesis
    by (blast intro: grows_trans grows_AssignVar_rule)
qed

lemma grows_visit_stmts: "visit_stmts ev st ss = Inr (st', ss') \<Longrightarrow> grows st st'"
proof (induction ss arbitrary: st st' ss')
  case Nil
  then show ?case by simp
next
  case (Cons s ss)
  from Cons.prems obtain st1 s1 ss1 where
    a: "visit_stmt ev st s = Inr (st1, s1)" "visit_stmts ev st1 ss = Inr (st', ss1)"
    by (auto split: sum.splits)
  from grows_visit_stmt [OF a(1)] Cons.IH [OF a(2)] show ?case
    by (rule grows_trans)
qed

lemma grows_visit_Predicate: "visit_Predicate ev st e = Inr (st', e') \<Longrightarrow> grows st st'"
  by (auto simp: visit_Predicate_def split: sum.splits if_splits
      dest!: frame_visit_expr(1) frame_grows intro: grows_trans)

lemma begin_progress_AttachPoints:
  assumes "pass st = num_passes ev"
  shows "begin_progress (length (filter (\<lambda>ap. provider ap = ''BEGIN'') aps)) st
    (visit_AttachPoints ev st aps)"
  using assms
proof (induction aps arbitrary: st)
  case Nil
  then show ?case
    by (simp add: grows_progress)
next
  case (Cons ap aps)
  note h = begin_progress_AttachPoint [OF Cons.prems, of ap]
  from begin_progress_grows [OF h] Cons.prems
  have "pass (visit_AttachPoint ev st ap) = num_passes ev"
    by (simp add: grows_def)
  from begin_progress_trans [OF h Cons.IH [OF this]] show ?case
    by (cases "provider ap = ''BEGIN''") simp_all
qed

lemma grows_visit_AttachPoints: "grows st (visit_AttachPoints ev st aps)"
proof (induction aps arbitrary: st)
  case Nil
  then show ?case by simp
next
  case (Cons ap aps)
  from grows_visit_AttachPoint Cons.IH show ?case
    unfolding visit_AttachPoints.simps by (rule grows_trans)
qed

lemma visit_Probe_cases:
  assumes "visit_Probe ev st p = Inr (st', p')"
  obtains st2 pr1 st3 ss1 where
    "grows (visit_AttachPoints ev (st\<lparr>variable_val := Map.empty,
        probe := Some (attach_points p)\<rparr>) (attach_points p)) st2"
    "grows st2 st3"
    "st' = st3 \<or> st' = st3\<lparr>added_probes := added_probes st3 @ [Probe (attach_points p) pr1 ss1]\<rparr>"
    "p' = Probe (attach_points p) pr1 ss1"
proof (cases p)
  case (Probe aps pr ss)
  let ?st1 = "visit_AttachPoints ev (st\<lparr>variable_val := Map.empty, probe := Some aps\<rparr>) aps"
  from assms Probe obtain st2 pr1 where
    a: "(case pr of None \<Rightarrow> Inr (?st1, None)
         | Some e \<Rightarrow> (case visit_Predicate ev ?st1 e of
                       Inl f \<Rightarrow> Inl f
                     | Inr (st2, e1) \<Rightarrow> Inr (st2, Some e1))) = Inr (st2, pr1)"
    by (auto simp: Let_def split: sum.splits)
  then have g1: "grows ?st1 st2"
    by (auto split: option.splits sum.splits dest: grows_visit_Predicate)
  from assms Probe a obtain st3 ss1 where
    b: "visit_stmts ev st2 ss = Inr (st3, ss1)"
      "st' = (if is_final_pass ev st3
              then st3\<lparr>added_probes := added_probes st3 @ [Probe aps pr1 ss1]\<rparr> else st3)"
      "p' = Probe aps pr1 ss1"
    by (auto simp: Let_def split: sum.splits)
  from b(1) have g2: "grows st2 st3"
    by (rule grows_visit_stmts)
  from b(2) have "st' = st3 \<or> st' = st3\<lparr>added_probes := added_probes st3 @ [Probe aps pr1 ss1]\<rparr>"
    by (simp split: if_splits)
  with g1 g2 b(3) Probe that show ?thesis
    by simp
qed

lemma grows_visit_Probe:
  assumes "visit_Probe ev st p = Inr (st', p')"
  shows "grows st st'" "attach_points p' = attach_points p"
proof -
  let ?st0 = "st\<lparr>variable_val := Map.empty, probe := Some (attach_points p)\<rparr>"
  from assms obtain st2 pr1 st3 ss1 where
    a: "grows (visit_AttachPoints ev ?st0 (attach_points p)) st2" "grows st2 st3"
      "st' = st3 \<or> st' = st3\<lparr>added_probes := added_probes st3 @ [Probe (attach_points p) pr1 ss1]\<rparr>"
      "p' = Probe (attach_points p) pr1 ss1"
    by (rule visit_Probe_cases)
  have "grows st ?st0"
    by (simp add: grows_def)
  moreover have "grows ?st0 (visit_AttachPoints ev ?st0 (attach_points p))"
    by (rule grows_visit_AttachPoints)
  moreover from a(3) have "grows st3 st'"
    by (auto simp: grows_def)
  ultimately show "grows st st'"
    using a(1,2) by (blast intro: grows_trans)
  from a(4) show "attach_points p' = attach_points p"
    by simp
qed

lemma begin_progress_visit_Probe:
  assumes "visit_Probe ev st p = Inr (st', p')" "pass st = num_passes ev"
  shows "begin_progress (length (filter (\<lambda>ap. provider ap = ''BEGIN'') (attach_points p))) st st'"
proof -
  let ?st0 = "st\<lparr>variable_val := Map.empty, probe := Some (attach_points p)\<rparr>"
  let ?st1 = "visit_AttachPoints ev ?st0 (attach_points p)"
  from assms(1) obtain st2 pr1 st3 ss1 where
    a: "grows ?st1 st2" "grows st2 st3"
      "st' = st3 \<or> st' = st3\<lparr>added_probes := added_probes st3 @ [Probe (attach_points p) pr1 ss1]\<rparr>"
    by (rule visit_Probe_cases)
  have "grows st ?st0" "has_begin_probe ?st0 = has_begin_probe st"
    by (simp_all add: grows_def)
  then have "begin_progress 0 st ?st0"
    by (simp add: grows_progress)
  moreover from assms(2) have "pass ?st0 = num_passes ev"
    by simp
  then have "begin_progress (length (filter (\<lambda>ap. provider ap = ''BEGIN'') (attach_points p)))
      ?st0 ?st1"
    by (rule begin_progress_AttachPoints)
  moreover from a(3) have "grows st3 st'"
    by (auto simp: grows_def)
  with a(1,2) have "grows ?st1 st'"
    by (blast intro: grows_trans)
  then have "begin_progress 0 ?st1 st'"
    by (rule grows_progress)
  ultimately show ?thesis
    using begin_progress_trans [of 0 st ?st0 _ ?st1] begin_progress_trans [of _ st ?st1 0 st']
    by simp
qed

lemma visit_Probes_props:
  assumes "visit_Probes ev st ps = Inr (st', ps')"
  shows "grows st st'" "begin_points_of ps' = begin_points_of ps"
    "pass st = num_passes ev \<Longrightarrow> begin_progress (begin_points_of ps) st st'"
  using assms
proof (induction ps arbitrary: st st' ps')
  case Nil
  {
    case 1 then show ?case by simp
  next
    case 2 then show ?case by auto
  next
    case 3 then show ?case by (simp add: begin_points_of_def grows_progress)
  }
next
  case (Cons p ps)
  {
    case 1
    then obtain st1 p1 ps1 where
      a: "visit_Probe ev st p = Inr (st1, p1)" "visit_Probes ev st1 ps = Inr (st', ps1)"
      by (auto split: sum.splits)
    from grows_visit_Probe(1) [OF a(1)] Cons.IH(1) [OF a(2)] show ?case
      by (rule grows_trans)
  next
    case 2
    then obtain st1 p1 ps1 where
      a: "visit_Probe ev st p = Inr (st1, p1)" "visit_Probes ev st1 ps = Inr (st', ps1)"
        "ps' = p1 # ps1"
      by (auto split: sum.splits)
    from grows_visit_Probe(2) [OF a(1)] Cons.IH(2) [OF a(2)] a(3) show ?case
      by (simp add: begin_points_of_def)
  next
    case 3
    from 3(2) obtain st1 p1 ps1 where
      a: "visit_Probe ev st p = Inr (st1, p1)" "visit_Probes ev st1 ps = Inr (st', ps1)"
      by (auto split: sum.splits)
    from grows_visit_Probe(1) [OF a(1)] 3(1) have "pass st1 = num_passes ev"
      by (simp add: grows_def)
    from begin_progress_trans [OF begin_progress_visit_Probe [OF a(1) 3(1)]
        Cons.IH(3) [OF this a(2)]]
    show ?case
      by (simp add: begin_points_of_def)
  }
qed

lemma visit_Program_props:
  assumes "visit_Program ev st root = Inr (st', root')"
  shows "grows st st'" "begin_points root' = begin_points root"
    "pass st = num_passes ev \<Longrightarrow> begin_progress (begin_points root) st st'"
proof -
  obtain incs ps where r: "root = Program incs ps"
    by (cases root)
  with assms obtain ps1 where
    a: "visit_Probes ev st ps = Inr (st', ps1)" "root' = Program incs ps1"
    by (auto split: sum.splits)
  from visit_Probes_props(1) [OF a(1)] show "grows st st'" .
  from visit_Probes_props(2) [OF a(1)] r a(2) show "begin_points root' = begin_points root"
    by (simp add: begin_points_def)
  assume "pass st = num_passes ev"
  from visit_Probes_props(3) [OF a(1) this] r show "begin_progress (begin_points root) st st'"
    by (simp add: begin_points_def)
qed

section \<open>What the pass driver returns\<close>

lemma analyse_loop_Inr:
  "analyse_loop ev p st root = Inr (r, st', root') \<Longrightarrow> 1 \<le> p \<Longrightarrow>
    (r = 0 \<and> clean_walks ev p (nat (num_passes ev + 1 - p)) st root
       \<and> (\<exists>sn. walks_from ev p (nat (num_passes ev + 1 - p)) st root = Inr (sn, root')
             \<and> st' = sn\<lparr>pass := max p (num_passes ev + 1)\<rparr>))
    \<or> (p \<le> r \<and> r \<le> num_passes ev \<and> clean_walks ev p (nat (r - p)) st root
       \<and> (\<exists>sr. walks_from ev p (nat (r - p + 1)) st root = Inr (sr, root')
             \<and> err sr \<noteq> [] \<and> pass sr = r \<and> st' = sr\<lparr>out := out sr @ err sr\<rparr>))"
proof (induction ev p st root arbitrary: r st' root' rule: analyse_loop.induct)
  case (1 ev p st root)
  note res = "1.prems"(1) and p1 = "1.prems"(2)
  show ?case
  proof (cases "p \<le> num_passes ev")
    case False
    then have "nat (num_passes ev + 1 - p) = 0" "max p (num_passes ev + 1) = p"
      by simp_all
    moreover from False res have "r = 0" "st' = st\<lparr>pass := p\<rparr>" "root' = root"
      by (simp_all add: analyse_loop.simps [of ev p st root])
    ultimately show ?thesis
      by simp
  next
    case True
    with res obtain st1 root1 where
      v: "visit_Program ev (st\<lparr>pass := p\<rparr>) root = Inr (st1, root1)"
      by (auto simp: analyse_loop.simps [of ev p st root] split: sum.splits)
    show ?thesis
    proof (cases "err st1 = []")
      case False
      with True v res have "r = p" "st' = st1\<lparr>out := out st1 @ err st1\<rparr>" "root' = root1"
        by (simp_all add: analyse_loop.simps [of ev p st root])
      moreover from visit_Program_props(1) [OF v] have "pass st1 = p"
        by (simp add: grows_def)
      ultimately show ?thesis
        using True False v by simp
    next
      case e: True
      with True v res have rec: "analyse_loop ev (p + 1) st1 root1 = Inr (r, st', root')"
        by (simp add: analyse_loop.simps [of ev p st root])
      from p1 have "1 \<le> p + 1"
        by simp
      from "1.IH" [OF True v refl _ rec this] e
      consider
        (ok) "r = 0" "clean_walks ev (p + 1) (nat (num_passes ev + 1 - (p + 1))) st1 root1"
          "\<exists>sn. walks_from ev (p + 1) (nat (num_passes ev + 1 - (p + 1))) st1 root1 = Inr (sn, root')
             \<and> st' = sn\<lparr>pass := max (p + 1) (num_passes ev + 1)\<rparr>"
        | (fail) "p + 1 \<le> r" "r \<le> num_passes ev" "clean_walks ev (p + 1) (nat (r - (p + 1))) st1 root1"
          "\<exists>sr. walks_from ev (p + 1) (nat (r - (p + 1) + 1)) st1 root1 = Inr (sr, root')
             \<and> err sr \<noteq> [] \<and> pass sr = r \<and> st' = sr\<lparr>out := out sr @ err sr\<rparr>"
        by auto
      then show ?thesis
      proof cases
        case ok
        from True have n: "nat (num_passes ev + 1 - p) = Suc (nat (num_passes ev + 1 - (p + 1)))"
          "max (p + 1) (num_passes ev + 1) = max p (num_passes ev + 1)"
          by simp_all
        from ok v e show ?thesis
          unfolding n(1) by (simp add: n(2))
      next
        case fail
        then have n: "nat (r - p) = Suc (nat (r - (p + 1)))"
          "nat (r - p + 1) = Suc (nat (r - (p + 1) + 1))"
          by simp_all
        from fail v e show ?thesis
          unfolding n by simp
      qed
    qed
  qed
qed

lemma analyse_loop_Inl:
  "analyse_loop ev p st root = Inl f \<Longrightarrow>
    \<exists>k. k < nat (num_passes ev + 1 - p) \<and> clean_walks ev p k st root
       \<and> walks_from ev p (Suc k) st root = Inl f"
proof (induction ev p st root rule: analyse_loop.induct)
  case (1 ev p st root)
  note res = "1.prems"
  from res have True: "p \<le> num_passes ev"
    by (auto simp: analyse_loop.simps [of ev p st root] split: if_splits)
  show ?case
  proof (cases "visit_Program ev (st\<lparr>pass := p\<rparr>) root")
    case (Inl g)
    with True res have "g = f"
      by (simp add: analyse_loop.simps [of ev p st root])
    with Inl True have "0 < nat (num_passes ev + 1 - p) \<and> clean_walks ev p 0 st root
       \<and> walks_from ev p (Suc 0) st root = Inl f"
      by simp
    then show ?thesis by blast
  next
    case (Inr x)
    then obtain st1 root1 where v: "visit_Program ev (st\<lparr>pass := p\<rparr>) root = Inr (st1, root1)"
      by (cases x) simp
    with True res have e: "err st1 = []"
      and rec: "analyse_loop ev (p + 1) st1 root1 = Inl f"
      by (auto simp: analyse_loop.simps [of ev p st root] split: if_splits)
    from "1.IH" [OF True v refl _ rec] e obtain k where
      k: "k < nat (num_passes ev + 1 - (p + 1))" "clean_walks ev (p + 1) k st1 root1"
        "walks_from ev (p + 1) (Suc k) st1 root1 = Inl f"
      by auto
    from k(1) True have "Suc k < nat (num_passes ev + 1 - p)"
      by simp
    moreover from k(2) v e have "clean_walks ev p (Suc k) st root"
      by simp
    moreover from k(3) v have "walks_from ev p (Suc (Suc k)) st root = Inl f"
      by simp
    ultimately show ?thesis by blast
  qed
qed

text \<open>
  Claim C4. When \<^verbatim>\<open>analyse\<close> returns \<open>r\<close>, either \<open>r\<close> is 0, all
  \<^verbatim>\<open>num_passes\<close> walks have been made, each left the error stream empty, and the state
  is the one after the last walk (with the loop counter one further); or \<open>r\<close> is a pass
  number between 1 and \<^verbatim>\<open>num_passes\<close>, the \<open>r - 1\<close> walks before it left the error
  stream empty, walk \<open>r\<close> was the last one made and left it non-empty, \<open>r\<close> is the value
  of \<^verbatim>\<open>pass_\<close> after that walk, and the state is the one after walk \<open>r\<close> with the
  error text appended to the output. \<^verbatim>\<open>analyse\<close> does
  not return only when one of the walks stops the process, after clean walks before it.
\<close>

theorem analyse_pass_driver:
  "(\<forall>r st' root'. analyse ev st root = Inr (r, st', root') \<longrightarrow>
      (r = 0 \<and> clean_walks ev 1 (nat (num_passes ev)) st root
         \<and> (\<exists>sn. walks_from ev 1 (nat (num_passes ev)) st root = Inr (sn, root')
               \<and> st' = sn\<lparr>pass := max 1 (num_passes ev + 1)\<rparr>))
      \<or> (1 \<le> r \<and> r \<le> num_passes ev \<and> clean_walks ev 1 (nat r - 1) st root
         \<and> (\<exists>sr. walks_from ev 1 (nat r) st root = Inr (sr, root')
               \<and> err sr \<noteq> [] \<and> pass sr = r \<and> st' = sr\<lparr>out := out sr @ err sr\<rparr>)))
   \<and> (\<forall>f. analyse ev st root = Inl f \<longrightarrow>
        (\<exists>k. k < nat (num_passes ev) \<and> clean_walks ev 1 k st root
           \<and> walks_from ev 1 (Suc k) st root = Inl f))"
proof (intro conjI allI impI)
  fix r st' root'
  assume "analyse ev st root = Inr (r, st', root')"
  then have a: "analyse_loop ev 1 st root = Inr (r, st', root')"
    by (simp add: analyse_def)
  have n: "nat (r - 1) = nat r - 1" "1 \<le> r \<Longrightarrow> nat (r - 1 + 1) = nat r"
    "nat (num_passes ev + 1 - 1) = nat (num_passes ev)"
    by simp_all
  from analyse_loop_Inr [OF a] n
  show "(r = 0 \<and> clean_walks ev 1 (nat (num_passes ev)) st root
         \<and> (\<exists>sn. walks_from ev 1 (nat (num_passes ev)) st root = Inr (sn, root')
               \<and> st' = sn\<lparr>pass := max 1 (num_passes ev + 1)\<rparr>))
      \<or> (1 \<le> r \<and> r \<le> num_passes ev \<and> clean_walks ev 1 (nat r - 1) st root
         \<and> (\<exists>sr. walks_from ev 1 (nat r) st root = Inr (sr, root')
               \<and> err sr \<noteq> [] \<and> pass sr = r \<and> st' = sr\<lparr>out := out sr @ err sr\<rparr>))"
    by auto
next
  fix f
  assume "analyse ev st root = Inl f"
  then have "analyse_loop ev 1 st root = Inl f"
    by (simp add: analyse_def)
  from analyse_loop_Inl [OF this]
  show "\<exists>k. k < nat (num_passes ev) \<and> clean_walks ev 1 k st root
           \<and> walks_from ev 1 (Suc k) st root = Inl f"
    by simp
qed

theorem analyse_pass_driver_witness:
  "clean_walks (example_env 2) 1 2 (new_analyser Map.empty)
      (forward_map_program [] ''f'' ''x'' 1 SizedType0 SizedType0 SizedType0)
   \<and> (\<exists>sr root'.
        walks_from (example_env 2) 1 1 (new_analyser Map.empty)
          (forward_variable_program [] ''f'' ''x'' 1 SizedType0 SizedType0 SizedType0)
          = Inr (sr, root')
        \<and> err sr \<noteq> [])"
proof -
  let ?ev = "example_env 2"
  have n: "num_passes ?ev = 2" "''f'' \<noteq> []"
    by (simp_all add: example_env_def)
  from run_forward_map [OF n] obtain st' root' where
    "analyse ?ev (new_analyser Map.empty)
       (forward_map_program [] ''f'' ''x'' 1 SizedType0 SizedType0 SizedType0)
     = Inr (0, st', root')"
    by blast
  with analyse_pass_driver [of ?ev "new_analyser Map.empty"
      "forward_map_program [] ''f'' ''x'' 1 SizedType0 SizedType0 SizedType0"]
  have a: "clean_walks ?ev 1 2 (new_analyser Map.empty)
      (forward_map_program [] ''f'' ''x'' 1 SizedType0 SizedType0 SizedType0)"
    by (auto simp: n)
  from run_forward_variable [OF n] obtain sv' rootv' where
    "analyse ?ev (new_analyser Map.empty)
       (forward_variable_program [] ''f'' ''x'' 1 SizedType0 SizedType0 SizedType0)
     = Inr (1, sv', rootv')"
    by blast
  with analyse_pass_driver [of ?ev "new_analyser Map.empty"
      "forward_variable_program [] ''f'' ''x'' 1 SizedType0 SizedType0 SizedType0"]
  have "\<exists>sr. walks_from ?ev 1 1 (new_analyser Map.empty)
          (forward_variable_program [] ''f'' ''x'' 1 SizedType0 SizedType0 SizedType0)
          = Inr (sr, rootv')
        \<and> err sr \<noteq> []"
    by (auto simp: n)
  with a show ?thesis
    by blast
qed

section \<open>Forward references\<close>











section \<open>Two BEGIN probes\<close>

lemma two_begin_not_final:
  assumes "p \<noteq> num_passes ev"
  shows "visit_Program ev (st\<lparr>pass := p\<rparr>) (two_begin_program incs)
    = Inr (st\<lparr>pass := p, variable_val := Map.empty, probe := Some [attach ''BEGIN'' [] []]\<rparr>,
           two_begin_program incs)"
  using assms
  by (simp add: two_begin_program_def attach_def visit_AttachPoint_def when_err_def
      is_final_pass_def)

lemma two_begin_final:
  assumes "\<not> has_begin_probe st"
  shows "\<exists>st1. visit_Program ev (st\<lparr>pass := num_passes ev\<rparr>) (two_begin_program incs)
      = Inr (st1, two_begin_program incs)
    \<and> err st1 = err st @ ''More than one BEGIN probe defined'' @ endl \<and> out st1 = out st"
  using assms
  by (simp add: two_begin_program_def attach_def visit_AttachPoint_def when_err_def
      is_final_pass_def put_err_def)

lemma two_begin_loop:
  assumes "k = nat (num_passes ev - p)" "p \<le> num_passes ev" "err st = []"
    "\<not> has_begin_probe st"
  shows "clean_walks ev p k st (two_begin_program incs)
    \<and> (\<exists>st'. analyse_loop ev p st (two_begin_program incs)
                = Inr (num_passes ev, st', two_begin_program incs)
          \<and> out st' = out st @ ''More than one BEGIN probe defined'' @ endl)"
  using assms
proof (induction k arbitrary: p st)
  case 0
  then have p: "p = num_passes ev"
    by simp
  from two_begin_final [OF "0.prems"(4), of ev incs] "0.prems"(3) obtain st1 where
    "visit_Program ev (st\<lparr>pass := num_passes ev\<rparr>) (two_begin_program incs)
      = Inr (st1, two_begin_program incs)"
    "err st1 = ''More than one BEGIN probe defined'' @ endl" "out st1 = out st"
    by auto
  then show ?case
    by (simp add: p analyse_loop.simps [of ev "num_passes ev" st])
next
  case (Suc k)
  then have p: "p \<noteq> num_passes ev" "p + 1 \<le> num_passes ev" "k = nat (num_passes ev - (p + 1))"
    by simp_all
  let ?st1 = "st\<lparr>pass := p, variable_val := Map.empty, probe := Some [attach ''BEGIN'' [] []]\<rparr>"
  from Suc.prems have s: "err ?st1 = []" "\<not> has_begin_probe ?st1"
    by simp_all
  note v = two_begin_not_final [OF p(1), of st incs]
  from Suc.IH [OF p(3) p(2) s] v Suc.prems(2,3) show ?case
    by (simp add: analyse_loop.simps [of ev p st])
qed

section \<open>Any program with two BEGIN attach points\<close>

lemma walks_from_Suc_end:
  "q = p + int k \<Longrightarrow>
   walks_from ev p (Suc k) st root =
    (case walks_from ev p k st root of
       Inl f \<Rightarrow> Inl f
     | Inr (s, r) \<Rightarrow> visit_Program ev (s\<lparr>pass := q\<rparr>) r)"
proof (induction k arbitrary: p st root)
  case 0
  then show ?case
    by (simp split: sum.splits)
next
  case (Suc k)
  then have q: "q = (p + 1) + int k"
    by simp
  show ?case
  proof (cases "visit_Program ev (st\<lparr>pass := p\<rparr>) root")
    case (Inl f)
    then show ?thesis by simp
  next
    case (Inr x)
    obtain st1 root1 where x: "x = (st1, root1)"
      by (cases x)
    have a: "walks_from ev p (Suc (Suc k)) st root = walks_from ev (p + 1) (Suc k) st1 root1"
      by (subst walks_from.simps(2)) (simp add: Inr x del: walks_from.simps)
    have b: "walks_from ev p (Suc k) st root = walks_from ev (p + 1) k st1 root1"
      by (subst walks_from.simps(2)) (simp add: Inr x del: walks_from.simps)
    show ?thesis
      unfolding a b by (rule Suc.IH [OF q])
  qed
qed

lemma clean_walks_state:
  assumes "clean_walks ev p k st root"
  obtains s r where "walks_from ev p k st root = Inr (s, r)" "out s = out st"
    "begin_points r = begin_points root" "err s = (if k = 0 then err st else [])"
proof -
  have "\<exists>s r. walks_from ev p k st root = Inr (s, r) \<and> out s = out st
    \<and> begin_points r = begin_points root \<and> err s = (if k = 0 then err st else [])"
    using assms
  proof (induction k arbitrary: p st root)
    case 0
    then show ?case by simp
  next
    case (Suc k)
    from Suc.prems obtain st1 root1 where
      a: "visit_Program ev (st\<lparr>pass := p\<rparr>) root = Inr (st1, root1)" "err st1 = []"
        "clean_walks ev (p + 1) k st1 root1"
      by (auto split: sum.splits)
    from visit_Program_props(1,2) [OF a(1)]
    have b: "out st1 = out st" "begin_points root1 = begin_points root"
      by (simp_all add: grows_def)
    from Suc.IH [OF a(3)] obtain s r where
      c: "walks_from ev (p + 1) k st1 root1 = Inr (s, r)" "out s = out st1"
        "begin_points r = begin_points root1" "err s = (if k = 0 then err st1 else [])"
      by blast
    from c(4) a(2) have "err s = []"
      by simp
    with a(1) b c(1-3) show ?case
      by simp
  qed
  with that show ?thesis
    by blast
qed

lemma analyse_loop_complete:
  assumes "clean_walks ev p k st root" "walks_from ev p (Suc k) st root = Inr (sr, rr)"
    "err sr \<noteq> []" "p + int k \<le> num_passes ev"
  shows "analyse_loop ev p st root = Inr (p + int k, sr\<lparr>out := out sr @ err sr\<rparr>, rr)"
  using assms
proof (induction k arbitrary: p st root)
  case 0
  then show ?case
    by (auto simp: analyse_loop.simps [of ev p st root] split: sum.splits)
next
  case (Suc k)
  from Suc.prems(1) obtain st1 root1 where
    a: "visit_Program ev (st\<lparr>pass := p\<rparr>) root = Inr (st1, root1)" "err st1 = []"
      "clean_walks ev (p + 1) k st1 root1"
    by (auto split: sum.splits)
  from Suc.prems(2) a(1) have b: "walks_from ev (p + 1) (Suc k) st1 root1 = Inr (sr, rr)"
    by simp
  from Suc.prems(4) have c: "p + 1 + int k \<le> num_passes ev" "p \<le> num_passes ev"
    by simp_all
  from Suc.IH [OF a(3) b Suc.prems(3) c(1)] a(1,2) c(2) show ?case
    by (simp add: analyse_loop.simps [of ev p st root])
qed

lemma two_begin_points_fail:
  assumes n: "1 \<le> num_passes ev" and c: "2 \<le> begin_points root" and e: "err st = []"
    and clean: "clean_walks ev 1 (nat (num_passes ev) - 1) st root"
    and fin: "walks_from ev 1 (nat (num_passes ev)) st root = Inr (sn, rn)"
  shows "\<exists>a b. analyse ev st root
        = Inr (num_passes ev, sn\<lparr>out := out st @ a @ begin_text @ b\<rparr>, rn)
      \<and> err sn = a @ begin_text @ b"
proof -
  let ?k = "nat (num_passes ev) - 1"
  from n have k: "Suc ?k = nat (num_passes ev)" "num_passes ev = 1 + int ?k"
    by simp_all
  from fin k(1) have fin': "walks_from ev 1 (Suc ?k) st root = Inr (sn, rn)"
    by simp
  from clean obtain s r where
    s: "walks_from ev 1 ?k st root = Inr (s, r)" "out s = out st"
      "begin_points r = begin_points root" "err s = (if ?k = 0 then err st else [])"
    by (rule clean_walks_state)
  from s(4) e have es: "err s = []"
    by simp
  from fin' s(1) walks_from_Suc_end [OF k(2), of ev st root]
  have v: "visit_Program ev (s\<lparr>pass := num_passes ev\<rparr>) r = Inr (sn, rn)"
    by simp
  from visit_Program_props(3) [OF v] c s(3)
  have "dup_begin (s\<lparr>pass := num_passes ev\<rparr>) sn"
    by (auto simp: begin_progress_def)
  with es obtain a b where ab: "err sn = a @ begin_text @ b"
    by (auto simp: dup_begin_def)
  then have ne: "err sn \<noteq> []"
    by (simp add: begin_text_def)
  from visit_Program_props(1) [OF v] s(2) have o: "out sn = out st"
    by (simp add: grows_def)
  from analyse_loop_complete [OF clean fin' ne] k(2) o ab
  have "analyse ev st root = Inr (num_passes ev, sn\<lparr>out := out st @ a @ begin_text @ b\<rparr>, rn)"
    by (simp add: analyse_def)
  with ab show ?thesis
    by blast
qed

text \<open>
  Claim C9. With at least one pass:
  \<^item> for the program of two BEGIN probes with empty bodies, every walk before the final one
    returns with an empty error stream, and \<^verbatim>\<open>analyse\<close> returns the number of passes,
    with the diagnostic that more than one BEGIN probe is defined as its output;
  \<^item> for any program with two or more BEGIN attach points and an analyser whose error stream
    is empty, if the walks before the final one return with an empty error stream (no other
    errors) and the final walk returns, \<^verbatim>\<open>analyse\<close> returns the number of passes and
    the error text of the final walk, which it appends to the output, contains that
    diagnostic.
\<close>

theorem two_begin_probes_fail_on_final_pass:
  assumes "1 \<le> num_passes ev"
  shows "clean_walks ev 1 (nat (num_passes ev) - 1) (new_analyser reg) (two_begin_program incs)
    \<and> (\<exists>st'. analyse ev (new_analyser reg) (two_begin_program incs)
                = Inr (num_passes ev, st', two_begin_program incs)
          \<and> out st' = ''More than one BEGIN probe defined'' @ endl)
    \<and> (2 \<le> begin_points root \<and> err st = []
        \<and> clean_walks ev 1 (nat (num_passes ev) - 1) st root
        \<and> walks_from ev 1 (nat (num_passes ev)) st root = Inr (sn, rn) \<longrightarrow>
        (\<exists>a b. analyse ev st root
                 = Inr (num_passes ev,
                        sn\<lparr>out := out st @ a @ ''More than one BEGIN probe defined'' @ endl @ b\<rparr>,
                        rn)
           \<and> err sn = a @ ''More than one BEGIN probe defined'' @ endl @ b))"
proof -
  have "nat (num_passes ev) - 1 = nat (num_passes ev - 1)"
    by simp
  moreover have "err (new_analyser reg) = []" "\<not> has_begin_probe (new_analyser reg)"
    "out (new_analyser reg) = []"
    by (simp_all add: new_analyser_def)
  ultimately have "clean_walks ev 1 (nat (num_passes ev) - 1) (new_analyser reg)
      (two_begin_program incs)
    \<and> (\<exists>st'. analyse ev (new_analyser reg) (two_begin_program incs)
                = Inr (num_passes ev, st', two_begin_program incs)
          \<and> out st' = ''More than one BEGIN probe defined'' @ endl)"
    using two_begin_loop [OF refl assms, of "new_analyser reg" incs]
    by (simp add: analyse_def)
  moreover have "\<exists>a b. analyse ev st root
                 = Inr (num_passes ev,
                        sn\<lparr>out := out st @ a @ ''More than one BEGIN probe defined'' @ endl @ b\<rparr>,
                        rn)
           \<and> err sn = a @ ''More than one BEGIN probe defined'' @ endl @ b"
    if "2 \<le> begin_points root" "err st = []"
      "clean_walks ev 1 (nat (num_passes ev) - 1) st root"
      "walks_from ev 1 (nat (num_passes ev)) st root = Inr (sn, rn)"
    using two_begin_points_fail [OF assms that] by (simp add: begin_text_def)
  ultimately show ?thesis
    by blast
qed

theorem two_begin_probes_fail_on_final_pass_witness:
  "clean_walks (example_env 3) 1 2 (new_analyser Map.empty) (two_begin_program [])
    \<and> (\<exists>st'. analyse (example_env 3) (new_analyser Map.empty) (two_begin_program [])
                = Inr (3, st', two_begin_program [])
          \<and> out st' = ''More than one BEGIN probe defined'' @ endl)
    \<and> (\<exists>a b sn rn. analyse (example_env 3) (new_analyser Map.empty) (two_begin_program [])
                 = Inr (3, sn\<lparr>out := a @ ''More than one BEGIN probe defined'' @ endl @ b\<rparr>, rn)
           \<and> err sn = a @ ''More than one BEGIN probe defined'' @ endl @ b)"
proof -
  let ?ev = "example_env 3" and ?st = "new_analyser Map.empty" and ?root = "two_begin_program []"
  have n: "1 \<le> num_passes ?ev"
    by (simp add: example_env_def)
  have m: "num_passes ?ev = 3" "nat 3 - 1 = 2" "nat 3 = Suc (Suc (Suc 0))"
    by (simp_all add: example_env_def)
  have c: "2 \<le> begin_points ?root" "err ?st = []" "out ?st = []"
    by (simp_all add: begin_points_def begin_points_of_def two_begin_program_def attach_def
        new_analyser_def)
  have "\<exists>sn rn. walks_from ?ev 1 (nat 3) ?st ?root = Inr (sn, rn)"
    unfolding m(3)
    by (simp add: two_begin_program_def run_defs)
  then obtain sn rn where w: "walks_from ?ev 1 (nat (num_passes ?ev)) ?st ?root = Inr (sn, rn)"
    unfolding m(1) by blast
  note t = two_begin_probes_fail_on_final_pass [OF n, of Map.empty "[]" ?root ?st sn rn]
  from t have a: "clean_walks ?ev 1 2 ?st ?root"
    and b: "\<exists>st'. analyse ?ev ?st ?root = Inr (3, st', ?root)
          \<and> out st' = ''More than one BEGIN probe defined'' @ endl"
    unfolding m(1,2) by blast+
  from t a c w have "\<exists>a b. analyse ?ev ?st ?root
       = Inr (3, sn\<lparr>out := a @ ''More than one BEGIN probe defined'' @ endl @ b\<rparr>, rn)
     \<and> err sn = a @ ''More than one BEGIN probe defined'' @ endl @ b"
    unfolding m(1,2) by simp
  with a b show ?thesis
    by blast
qed

end
